theory Spec2Isabelle
  imports Complex_Main "HOL-Library.Sublist"
begin

section \<open>Python string operations used by the three scripts\<close>

text \<open>
  Python strings are modelled as \<open>string\<close>. All string data of the repository is ASCII.

  \<open>contains sub s\<close> is Python's \<^verbatim>\<open>sub in s\<close>: \<open>sub\<close> occurs in \<open>s\<close> as a contiguous
  block. The empty string occurs in every string.
\<close>

fun contains :: "string \<Rightarrow> string \<Rightarrow> bool" where
  "contains sub [] = (sub = [])"
| "contains sub (c # cs) = (prefix sub (c # cs) \<or> contains sub cs)"

text \<open>
  \<open>str_replace old new s\<close> is Python's \<^verbatim>\<open>s.replace(old, new)\<close>: every occurrence of
  \<open>old\<close> is replaced, scanning from the left, and the scan resumes behind a replaced
  occurrence. With an empty \<open>old\<close>, Python puts \<open>new\<close> in front of every character and at
  the end.
\<close>

fun str_replace_ne :: "string \<Rightarrow> string \<Rightarrow> string \<Rightarrow> string" where
  "str_replace_ne old new [] = []"
| "str_replace_ne old new (c # cs) =
     (if old \<noteq> [] \<and> prefix old (c # cs)
      then new @ str_replace_ne old new (drop (length old) (c # cs))
      else c # str_replace_ne old new cs)"

definition str_replace :: "string \<Rightarrow> string \<Rightarrow> string \<Rightarrow> string" where
  "str_replace old new s =
     (if old = [] then new @ concat (map (\<lambda>c. c # new) s) else str_replace_ne old new s)"

text \<open>
  \<open>before_first sep s\<close> is \<^verbatim>\<open>s.split(sep)[0]\<close> for a non-empty \<open>sep\<close>: the text in front of
  the first occurrence of \<open>sep\<close>, the whole of \<open>s\<close> when there is none. \<open>after_first sep s\<close>
  is the text behind the first occurrence, if there is one; then \<^verbatim>\<open>s.split(sep)[1]\<close> is
  \<open>before_first sep\<close> of it.
\<close>

fun before_first :: "string \<Rightarrow> string \<Rightarrow> string" where
  "before_first sep [] = []"
| "before_first sep (c # cs) =
     (if prefix sep (c # cs) then [] else c # before_first sep cs)"

fun after_first :: "string \<Rightarrow> string \<Rightarrow> string option" where
  "after_first sep [] = (if sep = [] then Some [] else None)"
| "after_first sep (c # cs) =
     (if prefix sep (c # cs) then Some (drop (length sep) (c # cs)) else after_first sep cs)"

section \<open>The URL generator (\<^verbatim>\<open>api_expert/build_url.py\<close>)\<close>

text \<open>
  The module-level tables. \<open>expand_endpoints\<close> of the source reads them as globals; the
  model passes them as a record, so that properties can be stated for every table as well
  as for the tables the module defines. The keyword dictionary is a map.
\<close>

record tables =
  base_url :: string
  raw_endpoints :: "string list"
  affiliation_ids :: "string list"
  person_ids :: "string list"
  affiliation_types :: "string list"
  keyword_lists :: "string \<rightharpoonup> string list"

definition BASE_URL :: string where
  "BASE_URL = ''http://localhost:8010''"

definition RAW_ENDPOINTS :: "string list" where
  "RAW_ENDPOINTS =
     [''/api/affiliation/<affiliation_type>/<affiliation_id>/research/products'',
      ''/api/apc/affiliation/<affiliation_id>'',
      ''/api/apc/person/<person_id>'',
      ''/api/apc/search'',
      ''/api/person/<person_id>'',
      ''/api/person/<person_id>/research/products'',
      ''/api/person/<person_id>/research/news'',
      ''/api/search/affiliations/<affiliation_type>'',
      ''/api/search/person'',
      ''/api/search/works'']"

definition AFFILIATION_IDS :: "string list" where
  "AFFILIATION_IDS =
     [''01p9nak43'', ''04j43p132'', ''027nnzv91'', ''059d6yn51'', ''0374c0d66'',
      ''006703856'', ''057jm7w82'', ''05sq6ae13'', ''05w5shm69'', ''03ag0xf08'']"

text \<open>The last person id of the source ends in an apostrophe (character 39).\<close>

definition PERSON_IDS :: "string list" where
  "PERSON_IDS =
     [''A5105622035'', ''A5112693177'', ''0000000347185957'', ''A5113454003'',
      ''A5092999615'', ''0000000294031566'', ''A5106325669'', ''0001513368'',
      ''A5041111652'', ''Gwak4WYAAAAJ'' @ [char_of (39 :: nat)]]"

definition AFFILIATION_TYPES :: "string list" where
  "AFFILIATION_TYPES = [''institution'']"

definition KEYWORDS :: "string \<rightharpoonup> string list" where
  "KEYWORDS = map_of
     [(''/api/search/affiliations'', [''university'', ''andes'', ''antioquia'', ''open'']),
      (''/api/search/person'', [''esteban'', ''alejandra'', ''jaime'', ''garcia'']),
      (''/api/search/works'', [''ciencia'', ''data'', ''ai'', ''salud'']),
      (''/api/apc/search'', [''500'', ''1000'', ''1500'', ''2000''])]"

definition TABLES :: tables where
  "TABLES = \<lparr>base_url = BASE_URL, raw_endpoints = RAW_ENDPOINTS,
     affiliation_ids = AFFILIATION_IDS, person_ids = PERSON_IDS,
     affiliation_types = AFFILIATION_TYPES, keyword_lists = KEYWORDS\<rparr>"

text \<open>
  Exceptions that end a run are values of \<open>py_error\<close>: the \<^verbatim>\<open>IndexError\<close> of a choice
  from an empty list, and any exception of a request that the sampler does not catch.

  \<^verbatim>\<open>random.choice(seq)\<close> raises \<^verbatim>\<open>IndexError\<close> on an empty sequence and returns
  \<^verbatim>\<open>seq[k]\<close> for a random \<open>k < len(seq)\<close> otherwise. The random generator is an
  infinite sequence \<open>rng\<close> of draws, of which the program has used the first \<open>pos\<close>; a
  choice uses one draw.
\<close>

datatype py_error = IndexError | UncaughtException

definition random_choice :: "(nat \<Rightarrow> nat) \<Rightarrow> nat \<Rightarrow> 'a list \<Rightarrow> py_error + ('a \<times> nat)" where
  "random_choice rng pos seq =
     (if seq = [] then Inl IndexError
      else Inr (seq ! (rng pos mod length seq), Suc pos))"

text \<open>
  The body of the loop of \<^verbatim>\<open>expand_endpoints\<close> for one template: the URLs it appends and
  the position of the random generator afterwards. \<^verbatim>\<open>itertools.product(xs, ys)\<close> runs
  through \<open>ys\<close> for each element of \<open>xs\<close> in turn, as \<open>List.product\<close> does;
  \<^verbatim>\<open>ids[:3]\<close> is \<open>take 3 ids\<close>.
\<close>

definition expand_endpoint ::
  "tables \<Rightarrow> (nat \<Rightarrow> nat) \<Rightarrow> nat \<Rightarrow> string \<Rightarrow> py_error + (string list \<times> nat)" where
  "expand_endpoint T rng pos endpoint =
     (if contains ''<affiliation_type>'' endpoint \<and> contains ''<affiliation_id>'' endpoint then
        Inr (map (\<lambda>(affiliation_type, affiliation_id).
                    base_url T @
                    str_replace ''<affiliation_id>'' affiliation_id
                      (str_replace ''<affiliation_type>'' affiliation_type endpoint))
               (List.product (affiliation_types T) (take 3 (affiliation_ids T))), pos)
      else if contains ''<affiliation_id>'' endpoint then
        Inr (map (\<lambda>affiliation_id.
                    base_url T @ str_replace ''<affiliation_id>'' affiliation_id endpoint)
               (take 3 (affiliation_ids T)), pos)
      else if contains ''<person_id>'' endpoint then
        Inr (map (\<lambda>person_id. base_url T @ str_replace ''<person_id>'' person_id endpoint)
               (take 3 (person_ids T)), pos)
      else if contains ''<affiliation_type>'' endpoint then
        Inr (map (\<lambda>affiliation_type.
                    base_url T @ str_replace ''<affiliation_type>'' affiliation_type endpoint)
               (affiliation_types T), pos)
      else
        (case keyword_lists T endpoint of
           Some choices \<Rightarrow>
             (case random_choice rng pos choices of
                Inl e \<Rightarrow> Inl e
              | Inr (keyword, pos') \<Rightarrow>
                  Inr ([base_url T @ endpoint @ ''?keywords='' @ keyword], pos'))
         | None \<Rightarrow> Inr ([base_url T @ endpoint], pos)))"

text \<open>
  The loop over the templates, in declaration order, with the list \<open>urls\<close> built so far.
  An exception leaves the loop.
\<close>

fun expand_loop ::
  "tables \<Rightarrow> (nat \<Rightarrow> nat) \<Rightarrow> string list \<Rightarrow> string list \<Rightarrow> nat \<Rightarrow> py_error + (string list \<times> nat)"
  where
  "expand_loop T rng [] urls pos = Inr (urls, pos)"
| "expand_loop T rng (endpoint # rest) urls pos =
     (case expand_endpoint T rng pos endpoint of
        Inl e \<Rightarrow> Inl e
      | Inr (new, pos') \<Rightarrow> expand_loop T rng rest (urls @ new) pos')"

definition expand_endpoints_with ::
  "tables \<Rightarrow> (nat \<Rightarrow> nat) \<Rightarrow> nat \<Rightarrow> py_error + (string list \<times> nat)" where
  "expand_endpoints_with T rng pos = expand_loop T rng (raw_endpoints T) [] pos"

text \<open>\<^verbatim>\<open>expand_endpoints()\<close> as the module defines it, on its own tables.\<close>

definition expand_endpoints :: "(nat \<Rightarrow> nat) \<Rightarrow> nat \<Rightarrow> py_error + (string list \<times> nat)" where
  "expand_endpoints rng pos = expand_endpoints_with TABLES rng pos"

section \<open>The latency sampler (\<^verbatim>\<open>api_expert/response_time.py\<close>)\<close>

text \<open>
  What one \<^verbatim>\<open>requests.get(url, timeout=30)\<close> does: it returns a response (with the
  seconds that \<^verbatim>\<open>time.perf_counter\<close> measured around the call, and the status code; a
  response with an error status is a response), or it raises. The exceptions that the
  \<^verbatim>\<open>requests\<close> library raises for a failed request are subclasses of
  \<^verbatim>\<open>RequestException\<close>: \<^verbatim>\<open>Timeout\<close>, \<^verbatim>\<open>ConnectionError\<close>, and others that
  have nothing to do with the network (an invalid URL, too many redirects). Whatever else
  is raised inside the \<^verbatim>\<open>try\<close> block is not caught by the \<^verbatim>\<open>except\<close> clause.

  Durations are real numbers: the rounding of binary floating point is not modelled.
  The network is a function from the URL and the number of requests the process has made
  before to the outcome of the request.
\<close>

datatype request_exception = Timeout | ConnectionError | OtherRequestException

datatype outcome =
    Response real nat
  | Raises_RequestException request_exception
  | Raises_other

type_synonym network = "string \<Rightarrow> nat \<Rightarrow> outcome"

text \<open>
  The loop of \<^verbatim>\<open>measure_response_time\<close>: \<open>n\<close> repetitions are left, \<open>pos\<close> requests have
  been made, \<open>times'\<close> is the list \<^verbatim>\<open>times\<close> built so far. The lines printed are not modelled.
\<close>

fun attempts ::
  "network \<Rightarrow> string \<Rightarrow> nat \<Rightarrow> nat \<Rightarrow> real list \<Rightarrow> py_error + (real list \<times> nat)" where
  "attempts net url 0 pos times' = Inr (times', pos)"
| "attempts net url (Suc n) pos times' =
     (case net url pos of
        Response elapsed status \<Rightarrow> attempts net url n (Suc pos) (times' @ [elapsed])
      | Raises_RequestException e \<Rightarrow> attempts net url n (Suc pos) times'
      | Raises_other \<Rightarrow> Inl UncaughtException)"

text \<open>
  \<^verbatim>\<open>range(repetitions)\<close> is empty for a negative count. The result \<open>None\<close> is Python's
  \<^verbatim>\<open>None\<close>.
\<close>

definition measure_response_time ::
  "network \<Rightarrow> nat \<Rightarrow> string \<Rightarrow> int \<Rightarrow> py_error + (real option \<times> nat)" where
  "measure_response_time net pos url repetitions =
     (case attempts net url (nat repetitions) pos [] of
        Inl e \<Rightarrow> Inl e
      | Inr (times', pos') \<Rightarrow>
          Inr (if times' \<noteq> [] then Some (sum_list times' / real (length times')) else None, pos'))"

record measurement =
  url :: string
  average_time :: real

text \<open>The loop of the main program over the generated URLs (repetitions: the default 3).\<close>

fun sample_all ::
  "network \<Rightarrow> string list \<Rightarrow> nat \<Rightarrow> measurement list \<Rightarrow> py_error + (measurement list \<times> nat)"
  where
  "sample_all net [] pos results = Inr (results, pos)"
| "sample_all net (endpoint # rest) pos results =
     (case measure_response_time net pos endpoint 3 of
        Inl e \<Rightarrow> Inl e
      | Inr (None, pos') \<Rightarrow> sample_all net rest pos' results
      | Inr (Some t, pos') \<Rightarrow>
          sample_all net rest pos' (results @ [\<lparr>url = endpoint, average_time = t\<rparr>]))"

subsection \<open>Formatting with \<^verbatim>\<open>.3f\<close>\<close>

text \<open>
  \<^verbatim>\<open>f"{x:.3f}"\<close> prints the decimal expansion of \<open>x\<close> rounded to three places behind the
  point, a tie going to the even neighbour, with a minus sign for a negative \<open>x\<close>.
\<close>

definition round_half_even :: "real \<Rightarrow> int" where
  "round_half_even x =
     (let f = \<lfloor>x\<rfloor>; d = x - of_int f in
      if d < 1 / 2 then f
      else if 1 / 2 < d then f + 1
      else if even f then f else f + 1)"

definition digit_char :: "nat \<Rightarrow> char" where
  "digit_char d = ''0123456789'' ! d"

fun show_nat :: "nat \<Rightarrow> string" where
  "show_nat n = (if n < 10 then [digit_char n] else show_nat (n div 10) @ [digit_char (n mod 10)])"

declare show_nat.simps [simp del]

definition format_3f :: "real \<Rightarrow> string" where
  "format_3f x =
     (let n = nat (round_half_even (\<bar>x\<bar> * 1000)) in
      (if x < 0 then ''-'' else []) @ show_nat (n div 1000) @ ''.'' @
      [digit_char (n div 100 mod 10), digit_char (n div 10 mod 10), digit_char (n mod 10)])"

subsection \<open>The output file\<close>

text \<open>
  The file \<^verbatim>\<open>api_response_times.csv\<close> is the list of the rows that \<^verbatim>\<open>csv.DictWriter\<close> has
  written to it, each row the list of its fields; \<open>None\<close> when there is no such file.
  The file is opened in append mode.
\<close>

type_synonym csv_file = "string list list option"

text \<open>The rows handed to \<^verbatim>\<open>writer.writerows\<close>, in the order of the field names.\<close>

definition csv_rows :: "measurement list \<Rightarrow> string list list" where
  "csv_rows results = map (\<lambda>r. [url r, format_3f (average_time r)]) results"

definition write_csv :: "csv_file \<Rightarrow> measurement list \<Rightarrow> csv_file" where
  "write_csv file results =
     (let file_exists = (file \<noteq> None);
          old = (case file of None \<Rightarrow> [] | Some rows \<Rightarrow> rows);
          header = (if \<not> file_exists then [[''url'', ''average_time'']] else [])
      in Some (old @ header @ csv_rows results))"

text \<open>The main program: generate, sample, append.\<close>

definition main_program :: "(nat \<Rightarrow> nat) \<Rightarrow> network \<Rightarrow> csv_file \<Rightarrow> py_error + csv_file" where
  "main_program rng net file =
     (case expand_endpoints rng 0 of
        Inl e \<Rightarrow> Inl e
      | Inr (urls, _) \<Rightarrow>
          (case sample_all net urls 0 [] of
             Inl e \<Rightarrow> Inl e
           | Inr (results, _) \<Rightarrow> Inr (write_csv file results)))"

section \<open>The offline reporter's loader (\<^verbatim>\<open>report.py\<close>)\<close>

subsection \<open>Reading the file\<close>

text \<open>
  The values that pandas gives to the decimal numerals the sampler writes: an optional
  minus sign, digits, and optionally a point and digits.
\<close>

definition digit_val :: "char \<Rightarrow> nat option" where
  "digit_val c =
     (if c \<in> set ''0123456789'' then Some (of_char c - 48) else None)"

fun parse_digits :: "nat \<Rightarrow> string \<Rightarrow> nat option" where
  "parse_digits acc [] = Some acc"
| "parse_digits acc (c # cs) =
     (case digit_val c of None \<Rightarrow> None | Some d \<Rightarrow> parse_digits (10 * acc + d) cs)"

definition parse_nat :: "string \<Rightarrow> nat option" where
  "parse_nat s = (if s = [] then None else parse_digits 0 s)"

definition parse_unsigned :: "string \<Rightarrow> real option" where
  "parse_unsigned s =
     (let int_part = takeWhile (\<lambda>c. c \<noteq> CHR ''.'') s;
          rest = dropWhile (\<lambda>c. c \<noteq> CHR ''.'') s
      in case parse_nat int_part of
           None \<Rightarrow> None
         | Some a \<Rightarrow>
             (if rest = [] then Some (real a)
              else case parse_nat (tl rest) of
                     None \<Rightarrow> None
                   | Some b \<Rightarrow> Some (real a + real b / 10 ^ length (tl rest))))"

definition parse_float :: "string \<Rightarrow> real option" where
  "parse_float s =
     (case s of
        [] \<Rightarrow> None
      | c # s' \<Rightarrow> if c = CHR ''-'' then map_option uminus (parse_unsigned s')
                 else parse_unsigned s)"

text \<open>
  What the loader reads (\<^verbatim>\<open>report.py\<close>, lines 20, 23 and 26): the frame of
  \<^verbatim>\<open>pd.read_csv\<close> and its columns \<^verbatim>\<open>url\<close> and \<^verbatim>\<open>average_time\<close>. The first row
  of the file names the columns. \<^verbatim>\<open>pd.read_csv\<close> raises when there is no file or the
  file is empty, and the selection of a column raises \<^verbatim>\<open>KeyError\<close> when the first row
  does not hold its name. A field that is one of the missing-value texts of pandas is
  read as missing (\<open>None\<close>).

  The model covers the files whose first row is \<open>url, average_time\<close> and whose other rows
  have two fields, the first missing or a text with a slash (which pandas takes neither
  for a number nor for a truth value), the second a decimal numeral. What pandas does with
  any other file is not modelled and is the value \<open>Inl Not_modelled\<close>.
\<close>

datatype read_error = Raises | Not_modelled

definition NA_VALUES :: "string list" where
  "NA_VALUES =
     [[], ''#N/A'', ''#N/A N/A'', ''#NA'', ''-1.#IND'', ''-1.#QNAN'', ''-NaN'', ''-nan'',
      ''1.#IND'', ''1.#QNAN'', ''<NA>'', ''N/A'', ''NA'', ''NULL'', ''NaN'', ''None'',
      ''n/a'', ''nan'', ''null'']"

fun read_rows :: "string list list \<Rightarrow> read_error + (string option \<times> real) list" where
  "read_rows [] = Inr []"
| "read_rows ([u, t] # rows) =
     (case read_rows rows of
        Inl e \<Rightarrow> Inl e
      | Inr frame \<Rightarrow>
          (case parse_float t of
             None \<Rightarrow> Inl Not_modelled
           | Some x \<Rightarrow>
               if u \<in> set NA_VALUES then Inr ((None, x) # frame)
               else if contains ''/'' u then Inr ((Some u, x) # frame)
               else Inl Not_modelled))"
| "read_rows (_ # rows) = Inl Not_modelled"

definition read_csv :: "csv_file \<Rightarrow> read_error + (string option \<times> real) list" where
  "read_csv file =
     (case file of
        None \<Rightarrow> Inl Raises
      | Some [] \<Rightarrow> Inl Raises
      | Some (header # rows) \<Rightarrow>
          if header = [''url'', ''average_time''] then read_rows rows
          else if ''url'' \<notin> set header then Inl Raises
          else Inl Not_modelled)"

text \<open>
  A missing URL is the float \<^verbatim>\<open>nan\<close>, on which the string operations of the loader
  raise (lines 23 and 29); \<open>url_texts\<close> is \<open>None\<close> when the frame has one.
\<close>

fun url_texts :: "(string option \<times> real) list \<Rightarrow> measurement list option" where
  "url_texts [] = Some []"
| "url_texts ((None, t) # frame) = None"
| "url_texts ((Some u, t) # frame) =
     (case url_texts frame of
        None \<Rightarrow> None
      | Some rows \<Rightarrow> Some (\<lparr>url = u, average_time = t\<rparr> # rows))"

subsection \<open>The derived columns\<close>

record report_row = measurement +
  clean_endpoint :: string
  response_time_ms :: real
  base_endpoint :: string
  endpoint_type :: string
  has_parameters :: bool
  keyword :: "string option"
  endpoint_depth :: nat

definition extract_base_endpoint :: "string \<Rightarrow> string" where
  "extract_base_endpoint endpoint = before_first ''?'' endpoint"

definition categorize_endpoint :: "string \<Rightarrow> string" where
  "categorize_endpoint endpoint =
     (if contains ''search'' endpoint then ''search''
      else if contains ''person'' endpoint \<and> \<not> contains ''apc'' endpoint then ''person''
      else if contains ''affiliation'' endpoint \<and> \<not> contains ''apc'' endpoint
        then ''affiliation''
      else if contains ''apc'' endpoint then ''apc''
      else ''other'')"

text \<open>
  The \<^verbatim>\<open>except\<close> branch of \<^verbatim>\<open>extract_keyword\<close> is the case that the text has no second
  piece.
\<close>

definition extract_keyword :: "string \<Rightarrow> string option" where
  "extract_keyword endpoint =
     (if contains ''keywords='' endpoint then
        (case after_first ''keywords='' endpoint of
           Some rest \<Rightarrow> Some (before_first ''&'' (before_first ''keywords='' rest))
         | None \<Rightarrow> None)
      else None)"

text \<open>
  One row of \<^verbatim>\<open>load_and_clean_data\<close>. The pattern of the replacement,
  \<^verbatim>\<open>http://localhost:8010/api/\<close>, has no character that is special in a regular
  expression, so the replacement is that of the literal text, at every occurrence; so are
  the patterns \<^verbatim>\<open>\?\<close> (a question mark) and \<^verbatim>\<open>/\<close>.
\<close>

definition clean_row :: "measurement \<Rightarrow> report_row" where
  "clean_row r =
     (let clean = str_replace ''http://localhost:8010/api/'' [] (url r) in
      \<lparr>url = url r, average_time = average_time r,
       clean_endpoint = clean,
       response_time_ms = average_time r * 1000,
       base_endpoint = extract_base_endpoint clean,
       endpoint_type = categorize_endpoint clean,
       has_parameters = contains ''?'' clean,
       keyword = extract_keyword clean,
       endpoint_depth = count_list clean CHR ''/'' + 1\<rparr>)"

definition load_and_clean_data :: "csv_file \<Rightarrow> read_error + report_row list" where
  "load_and_clean_data file =
     (case read_csv file of
        Inl e \<Rightarrow> Inl e
      | Inr frame \<Rightarrow>
          (case url_texts frame of
             None \<Rightarrow> Inl Raises
           | Some rows \<Rightarrow> Inr (map clean_row rows)))"

section \<open>Vocabulary of the properties\<close>

text \<open>
  The durations of the successful ones among the \<open>n\<close> requests to \<open>u\<close> that follow the
  first \<open>pos\<close> requests of the process, in the order of the requests.
\<close>

definition successful_times :: "network \<Rightarrow> string \<Rightarrow> nat \<Rightarrow> nat \<Rightarrow> real list" where
  "successful_times net u pos n =
     [elapsed. Response elapsed status \<leftarrow> map (net u) [pos..<pos + n]]"

text \<open>The number that the text \<open>format_3f x\<close> denotes: \<open>x\<close> rounded to a multiple of 0.001.\<close>

definition round_3f :: "real \<Rightarrow> real" where
  "round_3f x =
     (if x < 0 then - (of_int (round_half_even (\<bar>x\<bar> * 1000)) / 1000)
      else of_int (round_half_even (\<bar>x\<bar> * 1000)) / 1000)"

definition is_digit :: "char \<Rightarrow> bool" where
  "is_digit c \<longleftrightarrow> c \<in> set ''0123456789''"

section \<open>Properties of the string operations\<close>

text \<open>\<open>contains\<close> is the substring relation.\<close>

lemma contains_iff_sublist: "contains sub s \<longleftrightarrow> sublist sub s"
  by (induction s) (auto simp: sublist_Cons_right)

lemma contains_iff: "contains sub s \<longleftrightarrow> (\<exists>ps ss. s = ps @ sub @ ss)"
  by (simp add: contains_iff_sublist sublist_def)

section \<open>The reporter's categories\<close>

text \<open>
  Claim C1, as the specification states it, gives the category \<open>person\<close> to every string
  that contains \<open>person\<close> and not \<open>search\<close>. The code asks for the absence of \<open>apc\<close>
  too: the cleaned endpoint \<open>apc/person/A5105622035\<close> of a generated URL is of category
  \<open>apc\<close>.
\<close>

theorem categorize_endpoint_person_counterexample:
  "\<not> (\<forall>endpoint. contains ''person'' endpoint \<and> \<not> contains ''search'' endpoint
        \<longrightarrow> categorize_endpoint endpoint = ''person'')"
proof
  assume claim: "\<forall>endpoint. contains ''person'' endpoint \<and> \<not> contains ''search'' endpoint
        \<longrightarrow> categorize_endpoint endpoint = ''person''"
  have "contains ''person'' ''apc/person/A5105622035''
      \<and> \<not> contains ''search'' ''apc/person/A5105622035''"
    by simp
  with claim have "categorize_endpoint ''apc/person/A5105622035'' = ''person''"
    by blast
  moreover have "categorize_endpoint ''apc/person/A5105622035'' = ''apc''"
    by (simp add: categorize_endpoint_def)
  ultimately show False
    by simp
qed

text \<open>
  Claim C1, amended: the classification is by substring, and the first match wins in the
  order \<open>search\<close>, \<open>apc\<close>, \<open>person\<close>, \<open>affiliation\<close>, \<open>other\<close>. A string that contains
  \<open>search\<close> is of category \<open>search\<close> whatever else it contains; one that contains \<open>apc\<close>
  and not \<open>search\<close> is of category \<open>apc\<close>; one that contains \<open>person\<close> and neither of
  these is of category \<open>person\<close>; one that contains \<open>affiliation\<close> and none of these is
  of category \<open>affiliation\<close>; every other string is of category \<open>other\<close>.
\<close>

theorem categorize_endpoint_priority:
  "categorize_endpoint endpoint =
     (if contains ''search'' endpoint then ''search''
      else if contains ''apc'' endpoint then ''apc''
      else if contains ''person'' endpoint then ''person''
      else if contains ''affiliation'' endpoint then ''affiliation''
      else ''other'')"
  by (simp add: categorize_endpoint_def)

theorem categorize_endpoint_priority_witness:
  "categorize_endpoint ''search/person?keywords=jaime'' = ''search''
   \<and> categorize_endpoint ''apc/affiliation/01p9nak43'' = ''apc''
   \<and> categorize_endpoint ''person/A5105622035'' = ''person''
   \<and> categorize_endpoint ''affiliation/institution/01p9nak43'' = ''affiliation''
   \<and> categorize_endpoint ''affiliation/institution/01p9nak43/research/products'' = ''search''
   \<and> categorize_endpoint ''works'' = ''other''"
  using categorize_endpoint_priority [of "''search/person?keywords=jaime''"]
    categorize_endpoint_priority [of "''apc/affiliation/01p9nak43''"]
    categorize_endpoint_priority [of "''person/A5105622035''"]
    categorize_endpoint_priority [of "''affiliation/institution/01p9nak43''"]
    categorize_endpoint_priority [of "''affiliation/institution/01p9nak43/research/products''"]
    categorize_endpoint_priority [of "''works''"]
  by simp

section \<open>Properties of the URL generator\<close>

lemmas table_defs = TABLES_def BASE_URL_def RAW_ENDPOINTS_def AFFILIATION_IDS_def
  PERSON_IDS_def AFFILIATION_TYPES_def KEYWORDS_def

text \<open>A choice from a list of four is one of the four.\<close>

lemma nth_mod_4_cases:
  assumes "P a" "P b" "P c" "P d"
  shows "P ([a, b, c, d] ! (n mod 4))"
proof -
  have "n mod 4 < 4"
    by simp
  then have "n mod 4 = 0 \<or> n mod 4 = 1 \<or> n mod 4 = 2 \<or> n mod 4 = 3"
    by linarith
  then show ?thesis
    using assms by (elim disjE) simp_all
qed

subsection \<open>A template with both affiliation placeholders\<close>

text \<open>
  What the two replacements do to a template with one placeholder of each kind, when the
  rest of the template and the affiliation type hold no \<open><\<close>: each placeholder gives way
  to its value and nothing else changes.
\<close>

lemma str_replace_ne_skip:
  assumes "c0 \<notin> set a"
  shows "str_replace_ne (c0 # old') new (a @ s) = a @ str_replace_ne (c0 # old') new s"
  using assms by (induction a) simp_all

lemma str_replace_ne_same:
  assumes "c0 \<notin> set s"
  shows "str_replace_ne (c0 # old') new s = s"
  using str_replace_ne_skip [OF assms, of old' new "[]"] by simp

lemma str_replace_ne_at:
  "str_replace_ne (c0 # old') new ((c0 # old') @ s) = new @ str_replace_ne (c0 # old') new s"
  by simp

lemma both_placeholders_substituted:
  assumes "CHR ''<'' \<notin> set a" "CHR ''<'' \<notin> set b" "CHR ''<'' \<notin> set c"
    and "CHR ''<'' \<notin> set affiliation_type"
  shows "str_replace ''<affiliation_id>'' affiliation_id
       (str_replace ''<affiliation_type>'' affiliation_type
          (a @ ''<affiliation_type>'' @ b @ ''<affiliation_id>'' @ c)) =
     a @ affiliation_type @ b @ affiliation_id @ c"
proof -
  let ?TY = "''<affiliation_type>''" and ?ID = "''<affiliation_id>''"
  have tail: "str_replace_ne ?TY affiliation_type (?ID @ c) = ?ID @ c"
  proof -
    have "CHR ''<'' \<notin> set (''affiliation_id>'' @ c)"
      using assms(3) by simp
    then have "str_replace_ne ?TY affiliation_type (''affiliation_id>'' @ c) =
        ''affiliation_id>'' @ c"
      by (rule str_replace_ne_same)
    then show ?thesis
      by simp
  qed
  have "str_replace_ne ?TY affiliation_type (a @ ?TY @ b @ ?ID @ c) =
      a @ str_replace_ne ?TY affiliation_type (?TY @ b @ ?ID @ c)"
    using assms(1) by (rule str_replace_ne_skip)
  also have "str_replace_ne ?TY affiliation_type (?TY @ b @ ?ID @ c) =
      affiliation_type @ str_replace_ne ?TY affiliation_type (b @ ?ID @ c)"
    by (rule str_replace_ne_at)
  also have "str_replace_ne ?TY affiliation_type (b @ ?ID @ c) =
      b @ str_replace_ne ?TY affiliation_type (?ID @ c)"
    using assms(2) by (rule str_replace_ne_skip)
  finally have first: "str_replace ?TY affiliation_type (a @ ?TY @ b @ ?ID @ c) =
      a @ affiliation_type @ b @ ?ID @ c"
    by (simp only: tail str_replace_def) simp
  have "CHR ''<'' \<notin> set (a @ affiliation_type @ b)"
    using assms by simp
  then have "str_replace_ne ?ID affiliation_id ((a @ affiliation_type @ b) @ ?ID @ c) =
      (a @ affiliation_type @ b) @ str_replace_ne ?ID affiliation_id (?ID @ c)"
    by (rule str_replace_ne_skip)
  also have "str_replace_ne ?ID affiliation_id (?ID @ c) =
      affiliation_id @ str_replace_ne ?ID affiliation_id c"
    by (rule str_replace_ne_at)
  also have "str_replace_ne ?ID affiliation_id c = c"
    using assms(3) by (rule str_replace_ne_same)
  finally have "str_replace ?ID affiliation_id (a @ affiliation_type @ b @ ?ID @ c) =
      a @ affiliation_type @ b @ affiliation_id @ c"
    by (simp add: str_replace_def del: str_replace_ne.simps)
  with first show ?thesis
    by (simp only:)
qed

text \<open>
  Claim C3: for a template that contains both the affiliation-type and the affiliation-id
  placeholder, and a list of at least three affiliation ids, the generator appends
  \<open>|affiliation_types| \<times> 3\<close> URLs and draws no random number. In product order, the URL
  at position \<open>3 i + j\<close> is the base URL followed by the template with the \<open>i\<close>-th
  affiliation type put for every type placeholder and then the \<open>j\<close>-th affiliation id for
  every id placeholder (\<open>j < 3\<close>).
\<close>

theorem expand_endpoint_type_and_id:
  assumes "contains ''<affiliation_type>'' endpoint"
    and "contains ''<affiliation_id>'' endpoint"
    and "3 \<le> length (affiliation_ids T)"
  shows "\<exists>urls. expand_endpoint T rng pos endpoint = Inr (urls, pos)
     \<and> length urls = length (affiliation_types T) * 3
     \<and> (\<forall>i < length (affiliation_types T). \<forall>j < 3.
           urls ! (i * 3 + j) =
             base_url T @
             str_replace ''<affiliation_id>'' (affiliation_ids T ! j)
               (str_replace ''<affiliation_type>'' (affiliation_types T ! i) endpoint))"
proof -
  let ?ids = "take 3 (affiliation_ids T)"
  let ?f = "\<lambda>(affiliation_type, affiliation_id).
              base_url T @
              str_replace ''<affiliation_id>'' affiliation_id
                (str_replace ''<affiliation_type>'' affiliation_type endpoint)"
  let ?urls = "map ?f (List.product (affiliation_types T) ?ids)"
  have len: "length ?ids = 3"
    using assms(3) by simp
  have run: "expand_endpoint T rng pos endpoint = Inr (?urls, pos)"
    using assms(1,2) by (simp add: expand_endpoint_def)
  have size: "length ?urls = length (affiliation_types T) * 3"
    using len by simp
  have order: "?urls ! (i * 3 + j) =
      base_url T @
      str_replace ''<affiliation_id>'' (affiliation_ids T ! j)
        (str_replace ''<affiliation_type>'' (affiliation_types T ! i) endpoint)"
    if "i < length (affiliation_types T)" and "j < 3" for i j
  proof -
    have below: "i * 3 + j < length (affiliation_types T) * length ?ids"
    proof -
      have "i * 3 + j < Suc i * 3"
        using that(2) by simp
      also have "\<dots> \<le> length (affiliation_types T) * 3"
        using that(1) by (simp add: Suc_leI)
      finally show ?thesis
        using len by simp
    qed
    then have "List.product (affiliation_types T) ?ids ! (i * 3 + j) =
        (affiliation_types T ! ((i * 3 + j) div 3), ?ids ! ((i * 3 + j) mod 3))"
      using len by (simp add: product_nth)
    moreover have "(i * 3 + j) div 3 = i" "(i * 3 + j) mod 3 = j"
      using that(2) by simp_all
    ultimately have "List.product (affiliation_types T) ?ids ! (i * 3 + j) =
        (affiliation_types T ! i, affiliation_ids T ! j)"
      using that(2) by simp
    then show ?thesis
      using below by simp
  qed
  show ?thesis
    using run size order by blast
qed

theorem expand_endpoint_type_and_id_witness:
  "\<exists>urls. expand_endpoint (TABLES\<lparr>affiliation_types := [''institution'', ''group'']\<rparr>)
       (\<lambda>_. 0) 0 ''/api/affiliation/<affiliation_type>/<affiliation_id>/research/products'' =
       Inr (urls, 0)
     \<and> length urls = 6
     \<and> urls ! 4 = ''http://localhost:8010/api/affiliation/group/04j43p132/research/products''"
proof -
  let ?T = "TABLES\<lparr>affiliation_types := [''institution'', ''group'']\<rparr>"
  let ?e = "''/api/affiliation/<affiliation_type>/<affiliation_id>/research/products''"
  have "contains ''<affiliation_type>'' ?e" "contains ''<affiliation_id>'' ?e"
    "3 \<le> length (affiliation_ids ?T)"
    by (simp_all add: table_defs)
  from expand_endpoint_type_and_id [OF this, of "\<lambda>_. 0" 0]
  obtain urls where run: "expand_endpoint ?T (\<lambda>_. 0) 0 ?e = Inr (urls, 0)"
    and size: "length urls = length (affiliation_types ?T) * 3"
    and order: "\<forall>i < length (affiliation_types ?T). \<forall>j < 3.
        urls ! (i * 3 + j) =
          base_url ?T @
          str_replace ''<affiliation_id>'' (affiliation_ids ?T ! j)
            (str_replace ''<affiliation_type>'' (affiliation_types ?T ! i) ?e)"
    by blast
  have "(1::nat) < length (affiliation_types ?T)" "(1::nat) < 3"
    by simp_all
  with order have "urls ! (1 * 3 + 1) =
      base_url ?T @
      str_replace ''<affiliation_id>'' (affiliation_ids ?T ! 1)
        (str_replace ''<affiliation_type>'' (affiliation_types ?T ! 1) ?e)"
    by blast
  then have "urls ! 4 =
      ''http://localhost:8010/api/affiliation/group/04j43p132/research/products''"
    by (simp add: table_defs str_replace_def)
  with run size show ?thesis
    by simp
qed

subsection \<open>A template of the keyword dictionary\<close>

lemma expand_endpoint_keyword_branch:
  assumes "\<not> contains ''<affiliation_type>'' endpoint"
    and "\<not> contains ''<affiliation_id>'' endpoint"
    and "\<not> contains ''<person_id>'' endpoint"
    and "keyword_lists T endpoint = Some choices"
  shows "expand_endpoint T rng pos endpoint =
     (if choices = [] then Inl IndexError
      else Inr ([base_url T @ endpoint @ ''?keywords='' @ choices ! (rng pos mod length choices)],
                Suc pos))"
  using assms by (simp add: expand_endpoint_def random_choice_def)

lemma KEYWORDS_nonempty: "KEYWORDS endpoint = Some choices \<Longrightarrow> choices \<noteq> []"
  by (auto simp: KEYWORDS_def split: if_splits)

lemma expand_endpoint_KEYWORDS:
  assumes "\<not> contains ''<affiliation_type>'' endpoint"
    and "\<not> contains ''<affiliation_id>'' endpoint"
    and "\<not> contains ''<person_id>'' endpoint"
    and "KEYWORDS endpoint = Some choices"
  shows "expand_endpoint TABLES rng pos endpoint =
     Inr ([BASE_URL @ endpoint @ ''?keywords='' @ choices ! (rng pos mod length choices)],
          Suc pos)"
proof -
  have ne: "choices \<noteq> []"
    using assms(4) by (rule KEYWORDS_nonempty)
  have "keyword_lists TABLES endpoint = Some choices" "base_url TABLES = BASE_URL"
    using assms(4) by (simp_all add: TABLES_def)
  with assms(1-3) ne show ?thesis
    by (simp add: expand_endpoint_keyword_branch)
qed

text \<open>
  Claim C7: for a template without placeholder that is a key of the keyword dictionary,
  the generator appends one URL, the base URL followed by the template and
  \<open>?keywords=\<close> and an element of the key's list, and uses one draw of the random
  generator. Every element of the list is chosen for some draw.
\<close>

theorem expand_endpoint_keywords:
  assumes "\<not> contains ''<affiliation_type>'' endpoint"
    and "\<not> contains ''<affiliation_id>'' endpoint"
    and "\<not> contains ''<person_id>'' endpoint"
    and "KEYWORDS endpoint = Some choices"
  shows "(\<exists>keyword \<in> set choices.
       expand_endpoint TABLES rng pos endpoint =
         Inr ([BASE_URL @ endpoint @ ''?keywords='' @ keyword], Suc pos))
     \<and> (\<forall>keyword \<in> set choices. \<exists>rng'.
         expand_endpoint TABLES rng' pos endpoint =
           Inr ([BASE_URL @ endpoint @ ''?keywords='' @ keyword], Suc pos))"
proof (intro conjI ballI)
  have ne: "choices \<noteq> []"
    using assms(4) by (rule KEYWORDS_nonempty)
  show "\<exists>keyword \<in> set choices.
       expand_endpoint TABLES rng pos endpoint =
         Inr ([BASE_URL @ endpoint @ ''?keywords='' @ keyword], Suc pos)"
  proof (rule bexI)
    show "expand_endpoint TABLES rng pos endpoint =
        Inr ([BASE_URL @ endpoint @ ''?keywords='' @ choices ! (rng pos mod length choices)],
             Suc pos)"
      using expand_endpoint_KEYWORDS [OF assms, of rng pos] .
    show "choices ! (rng pos mod length choices) \<in> set choices"
      using ne by simp
  qed
next
  fix k
  assume "k \<in> set choices"
  then obtain i where i: "i < length choices" "choices ! i = k"
    by (auto simp: in_set_conv_nth)
  have "expand_endpoint TABLES (\<lambda>_. i) pos endpoint =
      Inr ([BASE_URL @ endpoint @ ''?keywords='' @ choices ! (i mod length choices)], Suc pos)"
    using expand_endpoint_KEYWORDS [OF assms, of "\<lambda>_. i" pos] by simp
  with i have chosen: "expand_endpoint TABLES (\<lambda>_. i) pos endpoint =
      Inr ([BASE_URL @ endpoint @ ''?keywords='' @ k], Suc pos)"
    by simp
  show "\<exists>rng'. expand_endpoint TABLES rng' pos endpoint =
      Inr ([BASE_URL @ endpoint @ ''?keywords='' @ k], Suc pos)"
    by (rule exI [where x = "\<lambda>_. i"]) (rule chosen)
qed

theorem expand_endpoint_keywords_witness:
  "\<exists>keyword \<in> set [''ciencia'', ''data'', ''ai'', ''salud''].
     expand_endpoint TABLES (\<lambda>_. 6) 0 ''/api/search/works'' =
       Inr ([''http://localhost:8010/api/search/works?keywords='' @ keyword], 1)"
  using expand_endpoint_keywords
    [of "''/api/search/works''" "[''ciencia'', ''data'', ''ai'', ''salud'']" "\<lambda>_. 6" 0]
  by (simp add: KEYWORDS_def BASE_URL_def)

subsection \<open>The URLs of the module's own tables\<close>

lemma expand_endpoint_TABLES:
  "expand_endpoint TABLES rng pos ''/api/affiliation/<affiliation_type>/<affiliation_id>/research/products'' =
     Inr ([''http://localhost:8010/api/affiliation/institution/01p9nak43/research/products'',
           ''http://localhost:8010/api/affiliation/institution/04j43p132/research/products'',
           ''http://localhost:8010/api/affiliation/institution/027nnzv91/research/products''], pos)"
  "expand_endpoint TABLES rng pos ''/api/apc/affiliation/<affiliation_id>'' =
     Inr ([''http://localhost:8010/api/apc/affiliation/01p9nak43'',
           ''http://localhost:8010/api/apc/affiliation/04j43p132'',
           ''http://localhost:8010/api/apc/affiliation/027nnzv91''], pos)"
  "expand_endpoint TABLES rng pos ''/api/apc/person/<person_id>'' =
     Inr ([''http://localhost:8010/api/apc/person/A5105622035'',
           ''http://localhost:8010/api/apc/person/A5112693177'',
           ''http://localhost:8010/api/apc/person/0000000347185957''], pos)"
  "expand_endpoint TABLES rng pos ''/api/apc/search'' =
     Inr ([''http://localhost:8010/api/apc/search?keywords='' @
             [''500'', ''1000'', ''1500'', ''2000''] ! (rng pos mod 4)], Suc pos)"
  "expand_endpoint TABLES rng pos ''/api/person/<person_id>'' =
     Inr ([''http://localhost:8010/api/person/A5105622035'',
           ''http://localhost:8010/api/person/A5112693177'',
           ''http://localhost:8010/api/person/0000000347185957''], pos)"
  "expand_endpoint TABLES rng pos ''/api/person/<person_id>/research/products'' =
     Inr ([''http://localhost:8010/api/person/A5105622035/research/products'',
           ''http://localhost:8010/api/person/A5112693177/research/products'',
           ''http://localhost:8010/api/person/0000000347185957/research/products''], pos)"
  "expand_endpoint TABLES rng pos ''/api/person/<person_id>/research/news'' =
     Inr ([''http://localhost:8010/api/person/A5105622035/research/news'',
           ''http://localhost:8010/api/person/A5112693177/research/news'',
           ''http://localhost:8010/api/person/0000000347185957/research/news''], pos)"
  "expand_endpoint TABLES rng pos ''/api/search/affiliations/<affiliation_type>'' =
     Inr ([''http://localhost:8010/api/search/affiliations/institution''], pos)"
  "expand_endpoint TABLES rng pos ''/api/search/person'' =
     Inr ([''http://localhost:8010/api/search/person?keywords='' @
             [''esteban'', ''alejandra'', ''jaime'', ''garcia''] ! (rng pos mod 4)], Suc pos)"
  "expand_endpoint TABLES rng pos ''/api/search/works'' =
     Inr ([''http://localhost:8010/api/search/works?keywords='' @
             [''ciencia'', ''data'', ''ai'', ''salud''] ! (rng pos mod 4)], Suc pos)"
  by (simp_all add: expand_endpoint_def table_defs random_choice_def str_replace_def)

text \<open>
  The list that \<open>expand_endpoints\<close> returns, whatever the random generator draws: three
  of the 22 entries end in a keyword that depends on a draw.
\<close>

lemma expand_endpoints_eq:
  "expand_endpoints rng pos =
     Inr ([''http://localhost:8010/api/affiliation/institution/01p9nak43/research/products'',
           ''http://localhost:8010/api/affiliation/institution/04j43p132/research/products'',
           ''http://localhost:8010/api/affiliation/institution/027nnzv91/research/products'',
           ''http://localhost:8010/api/apc/affiliation/01p9nak43'',
           ''http://localhost:8010/api/apc/affiliation/04j43p132'',
           ''http://localhost:8010/api/apc/affiliation/027nnzv91'',
           ''http://localhost:8010/api/apc/person/A5105622035'',
           ''http://localhost:8010/api/apc/person/A5112693177'',
           ''http://localhost:8010/api/apc/person/0000000347185957'',
           ''http://localhost:8010/api/apc/search?keywords='' @
             [''500'', ''1000'', ''1500'', ''2000''] ! (rng pos mod 4),
           ''http://localhost:8010/api/person/A5105622035'',
           ''http://localhost:8010/api/person/A5112693177'',
           ''http://localhost:8010/api/person/0000000347185957'',
           ''http://localhost:8010/api/person/A5105622035/research/products'',
           ''http://localhost:8010/api/person/A5112693177/research/products'',
           ''http://localhost:8010/api/person/0000000347185957/research/products'',
           ''http://localhost:8010/api/person/A5105622035/research/news'',
           ''http://localhost:8010/api/person/A5112693177/research/news'',
           ''http://localhost:8010/api/person/0000000347185957/research/news'',
           ''http://localhost:8010/api/search/affiliations/institution'',
           ''http://localhost:8010/api/search/person?keywords='' @
             [''esteban'', ''alejandra'', ''jaime'', ''garcia''] ! (rng (Suc pos) mod 4),
           ''http://localhost:8010/api/search/works?keywords='' @
             [''ciencia'', ''data'', ''ai'', ''salud''] ! (rng (Suc (Suc pos)) mod 4)],
          pos + 3)"
proof -
  have "raw_endpoints TABLES = RAW_ENDPOINTS"
    by (simp add: TABLES_def)
  then show ?thesis
    by (simp add: expand_endpoints_def expand_endpoints_with_def RAW_ENDPOINTS_def
        expand_endpoint_TABLES)
qed

text \<open>
  Claim C9: every run of the generator on the module's tables returns 22 URLs (and uses
  three draws); each URL starts with the base URL and holds neither \<open><\<close> nor \<open>>\<close>.
\<close>

theorem expand_endpoints_22_urls:
  "\<exists>urls. expand_endpoints rng pos = Inr (urls, pos + 3) \<and> length urls = 22
     \<and> (\<forall>u \<in> set urls. prefix BASE_URL u \<and> CHR ''<'' \<notin> set u \<and> CHR ''>'' \<notin> set u)"
proof -
  let ?ok = "\<lambda>u. prefix BASE_URL u \<and> CHR ''<'' \<notin> set u \<and> CHR ''>'' \<notin> set u"
  have k1: "?ok (''http://localhost:8010/api/apc/search?keywords='' @
             [''500'', ''1000'', ''1500'', ''2000''] ! (rng pos mod 4))"
    by (rule nth_mod_4_cases
        [where P = "\<lambda>k. ?ok (''http://localhost:8010/api/apc/search?keywords='' @ k)"])
      (simp_all add: BASE_URL_def)
  have k2: "?ok (''http://localhost:8010/api/search/person?keywords='' @
             [''esteban'', ''alejandra'', ''jaime'', ''garcia''] ! (rng (Suc pos) mod 4))"
    by (rule nth_mod_4_cases
        [where P = "\<lambda>k. ?ok (''http://localhost:8010/api/search/person?keywords='' @ k)"])
      (simp_all add: BASE_URL_def)
  have k3: "?ok (''http://localhost:8010/api/search/works?keywords='' @
             [''ciencia'', ''data'', ''ai'', ''salud''] ! (rng (Suc (Suc pos)) mod 4))"
    by (rule nth_mod_4_cases
        [where P = "\<lambda>k. ?ok (''http://localhost:8010/api/search/works?keywords='' @ k)"])
      (simp_all add: BASE_URL_def)
  show ?thesis
    unfolding expand_endpoints_eq
    using k1 k2 k3 by (simp add: BASE_URL_def)
qed

theorem expand_endpoints_22_urls_witness:
  "\<exists>urls. expand_endpoints (\<lambda>n. n) 0 = Inr (urls, 3) \<and> length urls = 22
     \<and> (\<forall>u \<in> set urls. prefix BASE_URL u \<and> CHR ''<'' \<notin> set u \<and> CHR ''>'' \<notin> set u)"
  using expand_endpoints_22_urls [of "\<lambda>n. n" 0] by simp

subsection \<open>The keyword URLs\<close>

lemma expand_endpoint_other_key:
  assumes "endpoint \<noteq> k"
  shows "expand_endpoint (T\<lparr>keyword_lists := (keyword_lists T)(k := v)\<rparr>) rng pos endpoint =
     expand_endpoint T rng pos endpoint"
  using assms by (simp add: expand_endpoint_def split: option.splits sum.splits prod.splits)

lemma expand_loop_other_key:
  assumes "k \<notin> set endpoints"
  shows "expand_loop (T\<lparr>keyword_lists := (keyword_lists T)(k := v)\<rparr>) rng endpoints urls pos =
     expand_loop T rng endpoints urls pos"
  using assms
  by (induction endpoints arbitrary: urls pos)
    (auto simp: expand_endpoint_other_key split: sum.splits)

lemma affiliations_list_unused:
  "expand_endpoints_with (TABLES\<lparr>keyword_lists := KEYWORDS(''/api/search/affiliations'' := v)\<rparr>)
     rng pos = expand_endpoints rng pos"
proof -
  have "''/api/search/affiliations'' \<notin> set (raw_endpoints TABLES)"
    by (simp add: TABLES_def RAW_ENDPOINTS_def)
  moreover have "keyword_lists TABLES = KEYWORDS"
    by (simp add: TABLES_def)
  ultimately show ?thesis
    using expand_loop_other_key [of "''/api/search/affiliations''" "raw_endpoints TABLES" TABLES v rng "[]" pos]
    by (simp add: expand_endpoints_def expand_endpoints_with_def)
qed

lemma expand_endpoint_placeholder_first:
  assumes "contains ''<affiliation_type>'' endpoint \<or> contains ''<affiliation_id>'' endpoint
     \<or> contains ''<person_id>'' endpoint"
  shows "expand_endpoint (T\<lparr>keyword_lists := K\<rparr>) rng pos endpoint =
     expand_endpoint T rng pos endpoint"
  using assms by (auto simp: expand_endpoint_def)

lemma keyword_urls:
  "contains ''keywords='' (p @ ''?keywords='' @ k)"
  by (simp add: contains_iff) (metis append.assoc append_Cons append_Nil)

text \<open>
  Claim C10: in every run on the module's tables, the URLs with a \<open>keywords=\<close> parameter
  are three, those of the templates \<open>/api/apc/search\<close>, \<open>/api/search/person\<close> and
  \<open>/api/search/works\<close> (entries 9, 20 and 21 of the list, counted from 0), each with a
  keyword of its own list. The template \<open>/api/search/affiliations/<affiliation_type>\<close>
  contains a placeholder, so its URL (entry 19) is that of the placeholder branch,
  without query string, whatever the keyword dictionary is; and the result does not depend
  on the entry of the key \<open>/api/search/affiliations\<close>, which may be any list or
  missing.
\<close>

theorem three_keyword_urls:
  "\<exists>urls. expand_endpoints rng pos = Inr (urls, pos + 3)
     \<and> filter (contains ''keywords='') urls = [urls ! 9, urls ! 20, urls ! 21]
     \<and> (\<exists>k \<in> set [''500'', ''1000'', ''1500'', ''2000''].
           urls ! 9 = ''http://localhost:8010/api/apc/search?keywords='' @ k)
     \<and> (\<exists>k \<in> set [''esteban'', ''alejandra'', ''jaime'', ''garcia''].
           urls ! 20 = ''http://localhost:8010/api/search/person?keywords='' @ k)
     \<and> (\<exists>k \<in> set [''ciencia'', ''data'', ''ai'', ''salud''].
           urls ! 21 = ''http://localhost:8010/api/search/works?keywords='' @ k)
     \<and> urls ! 19 = ''http://localhost:8010/api/search/affiliations/institution''
     \<and> (\<forall>K. expand_endpoint (TABLES\<lparr>keyword_lists := K\<rparr>) rng pos
               ''/api/search/affiliations/<affiliation_type>'' =
             Inr ([''http://localhost:8010/api/search/affiliations/institution''], pos))
     \<and> (\<forall>v. expand_endpoints_with
               (TABLES\<lparr>keyword_lists := KEYWORDS(''/api/search/affiliations'' := v)\<rparr>) rng pos =
             Inr (urls, pos + 3))"
proof -
  define k1 where "k1 = [''500'', ''1000'', ''1500'', ''2000''] ! (rng pos mod 4)"
  define k2 where "k2 = [''esteban'', ''alejandra'', ''jaime'', ''garcia''] ! (rng (Suc pos) mod 4)"
  define k3 where "k3 = [''ciencia'', ''data'', ''ai'', ''salud''] ! (rng (Suc (Suc pos)) mod 4)"
  have in1: "k1 \<in> set [''500'', ''1000'', ''1500'', ''2000'']"
    and in2: "k2 \<in> set [''esteban'', ''alejandra'', ''jaime'', ''garcia'']"
    and in3: "k3 \<in> set [''ciencia'', ''data'', ''ai'', ''salud'']"
    using nth_mod_4_cases [where P = "\<lambda>k. k \<in> set [a, b, c, d]" for a b c d :: string]
    by (simp_all add: k1_def k2_def k3_def)
  note run = expand_endpoints_eq [of rng pos, folded k1_def k2_def k3_def]
  have kw: "contains ''keywords='' (''http://localhost:8010/api/apc/search?keywords='' @ k1)"
    "contains ''keywords='' (''http://localhost:8010/api/search/person?keywords='' @ k2)"
    "contains ''keywords='' (''http://localhost:8010/api/search/works?keywords='' @ k3)"
    using keyword_urls [of "''http://localhost:8010/api/apc/search''" k1]
      keyword_urls [of "''http://localhost:8010/api/search/person''" k2]
      keyword_urls [of "''http://localhost:8010/api/search/works''" k3]
    by simp_all
  have placeholder:
    "expand_endpoint (TABLES\<lparr>keyword_lists := K\<rparr>) rng pos
       ''/api/search/affiliations/<affiliation_type>'' =
     Inr ([''http://localhost:8010/api/search/affiliations/institution''], pos)" for K
    by (simp add: expand_endpoint_placeholder_first expand_endpoint_TABLES)
  show ?thesis
    unfolding affiliations_list_unused
    unfolding run
    using kw in1 in2 in3 placeholder by simp
qed

theorem three_keyword_urls_witness:
  "\<exists>urls. expand_endpoints (\<lambda>n. n) 0 = Inr (urls, 3)
     \<and> filter (contains ''keywords='') urls =
         [''http://localhost:8010/api/apc/search?keywords=500'',
          ''http://localhost:8010/api/search/person?keywords=alejandra'',
          ''http://localhost:8010/api/search/works?keywords=ai'']
     \<and> urls ! 19 = ''http://localhost:8010/api/search/affiliations/institution''"
proof -
  from three_keyword_urls [of "\<lambda>n. n" 0]
  obtain urls where run: "expand_endpoints (\<lambda>n. n) 0 = Inr (urls, 0 + 3)"
    and kw: "filter (contains ''keywords='') urls = [urls ! 9, urls ! 20, urls ! 21]"
    and aff: "urls ! 19 = ''http://localhost:8010/api/search/affiliations/institution''"
    by blast
  from run have "urls ! 9 = ''http://localhost:8010/api/apc/search?keywords=500''"
    "urls ! 20 = ''http://localhost:8010/api/search/person?keywords=alejandra''"
    "urls ! 21 = ''http://localhost:8010/api/search/works?keywords=ai''"
    by (auto simp: expand_endpoints_eq)
  with run kw aff show ?thesis
    by simp
qed

section \<open>Properties of the latency sampler\<close>

lemma attempts_eq:
  assumes "\<forall>i<n. net u (pos + i) \<noteq> Raises_other"
  shows "attempts net u n pos ts = Inr (ts @ successful_times net u pos n, pos + n)"
  using assms
proof (induction n arbitrary: pos ts)
  case 0
  then show ?case
    by (simp add: successful_times_def)
next
  case (Suc n)
  have first: "net u pos \<noteq> Raises_other"
    using Suc.prems by (metis add.right_neutral zero_less_Suc)
  have rest: "\<forall>i<n. net u (Suc pos + i) \<noteq> Raises_other"
    using Suc.prems by (metis Suc_less_eq add_Suc_shift)
  have split: "successful_times net u pos (Suc n) =
      (case net u pos of Response elapsed status \<Rightarrow> [elapsed] | _ \<Rightarrow> [])
      @ successful_times net u (Suc pos) n"
  proof -
    have "[pos..<pos + Suc n] = pos # [Suc pos..<Suc pos + n]"
      by (subst upt_rec) simp
    then show ?thesis
      by (simp add: successful_times_def del: upt_Suc)
  qed
  show ?case
    using first Suc.IH [OF rest] split
    by (cases "net u pos") simp_all
qed

lemma attempts_uncaught:
  assumes "i < n" and "net u (pos + i) = Raises_other"
    and "\<forall>j<i. net u (pos + j) \<noteq> Raises_other"
  shows "attempts net u n pos ts = Inl UncaughtException"
  using assms
proof (induction n arbitrary: pos ts i)
  case 0
  then show ?case
    by simp
next
  case (Suc n)
  show ?case
  proof (cases i)
    case 0
    with Suc.prems(2) show ?thesis
      by simp
  next
    case (Suc i')
    have first: "net u pos \<noteq> Raises_other"
      using Suc.prems(3) Suc by (metis add.right_neutral zero_less_Suc)
    have "i' < n" "net u (Suc pos + i') = Raises_other"
      "\<forall>j<i'. net u (Suc pos + j) \<noteq> Raises_other"
      using Suc.prems Suc by (auto simp: add_Suc_shift dest: Suc_mono)
    from Suc.IH [OF this] first show ?thesis
      by (cases "net u pos") simp_all
  qed
qed


lemma measure_response_time_eq:
  assumes "\<forall>i<nat repetitions. net u (pos + i) \<noteq> Raises_other"
  shows "measure_response_time net pos u repetitions =
     Inr (if successful_times net u pos (nat repetitions) \<noteq> []
          then Some (sum_list (successful_times net u pos (nat repetitions))
                     / real (length (successful_times net u pos (nat repetitions))))
          else None,
          pos + nat repetitions)"
  using assms
    attempts_eq [where n = "nat repetitions" and net = net and u = u and pos = pos and ts = "[]"]
  by (simp add: measure_response_time_def)

text \<open>
  Claim C2, as the specification states it, has the sampler skip an attempt on any
  exception that the HTTP client raises, so that no failure inside an attempt makes the
  sampler raise or abandon the remaining attempts. The \<^verbatim>\<open>except\<close> clause names
  \<^verbatim>\<open>requests.exceptions.RequestException\<close> only: when the second of three requests
  raises an exception of another class, the sampler raises it and the third request is
  not made.
\<close>

theorem uncaught_exception_counterexample:
  "attempts (\<lambda>u n. if n = 1 then Raises_other else Response (real n) 200) ''a'' 3 0 [] =
     Inl UncaughtException
   \<and> measure_response_time (\<lambda>u n. if n = 1 then Raises_other else Response (real n) 200)
       0 ''a'' 3 = Inl UncaughtException"
  by (simp add: measure_response_time_def numeral_3_eq_3)

text \<open>
  Claim C2, amended: when none of the \<open>repetitions\<close> requests raises anything but a
  \<^verbatim>\<open>RequestException\<close> (a timeout, a connection error, or another of its subclasses),
  the loop ends normally after exactly \<open>repetitions\<close> requests, none repeated, and the
  list \<^verbatim>\<open>times\<close> holds the durations of the successful requests and nothing else; so
  \<open>measure_response_time\<close> returns. One repetition with a \<^verbatim>\<open>RequestException\<close> adds
  nothing to the list and goes on with the next repetition; one with a response adds its
  duration.
\<close>

theorem request_failures_skipped:
  assumes "\<forall>i<nat repetitions. net u (pos + i) \<noteq> Raises_other"
  shows "attempts net u (nat repetitions) pos [] =
       Inr (successful_times net u pos (nat repetitions), pos + nat repetitions)
     \<and> (\<exists>average_time. measure_response_time net pos u repetitions =
           Inr (average_time, pos + nat repetitions))
     \<and> (\<forall>n pos' ts e. net u pos' = Raises_RequestException e \<longrightarrow>
           attempts net u (Suc n) pos' ts = attempts net u n (Suc pos') ts)
     \<and> (\<forall>n pos' ts elapsed status. net u pos' = Response elapsed status \<longrightarrow>
           attempts net u (Suc n) pos' ts = attempts net u n (Suc pos') (ts @ [elapsed]))"
  using assms
    attempts_eq [where n = "nat repetitions" and net = net and u = u and pos = pos and ts = "[]"]
    measure_response_time_eq [where repetitions = repetitions and net = net and u = u and pos = pos]
  by simp

theorem request_failures_skipped_witness:
  "attempts (\<lambda>u n. if n = 1 then Raises_RequestException ConnectionError
                   else Response (real n) 200) ''a'' 3 0 [] = Inr ([0, 2], 3)"
proof -
  let ?net = "\<lambda>(u::string) n. if n = 1 then Raises_RequestException ConnectionError
                                else Response (real n) 200"
  have times: "successful_times ?net ''a'' 0 (nat 3) = [0, 2]"
    by (simp add: successful_times_def upt_rec)
  have "\<forall>i<nat 3. ?net ''a'' (0 + i) \<noteq> Raises_other"
    by simp
  from request_failures_skipped [of 3 ?net "''a''" 0, OF this]
  have "attempts ?net ''a'' (nat 3) 0 [] =
      Inr (successful_times ?net ''a'' 0 (nat 3), 0 + nat 3)"
    by (rule conjunct1)
  then show ?thesis
    unfolding times by simp
qed








section \<open>Properties of the number format\<close>

text \<open>
  The text that \<^verbatim>\<open>.3f\<close> writes is read back as the number rounded to three decimals,
  which differs from the number by at most 0.0005.
\<close>

lemma below_10_cases:
  assumes "d < (10::nat)"
    and "P 0" "P 1" "P 2" "P 3" "P 4" "P 5" "P 6" "P 7" "P 8" "P 9"
  shows "P d"
proof -
  have low: "d = 0 \<or> d = 1 \<or> d = 2 \<or> d = 3 \<or> d = 4" if "d < 5"
    using that by linarith
  have high: "d = 5 \<or> d = 6 \<or> d = 7 \<or> d = 8 \<or> d = 9" if "5 \<le> d"
    using that assms(1) by linarith
  have "(d = 0 \<or> d = 1 \<or> d = 2 \<or> d = 3 \<or> d = 4)
      \<or> (d = 5 \<or> d = 6 \<or> d = 7 \<or> d = 8 \<or> d = 9)"
    using low high by (cases "d < 5") simp_all
  with assms(2-) show ?thesis
    by (elim disjE) simp_all
qed

lemma digit_char_is_digit: "d < 10 \<Longrightarrow> is_digit (digit_char d)"
  by (erule below_10_cases) (simp_all add: is_digit_def digit_char_def)

lemma show_nat_digits: "show_nat n \<noteq> [] \<and> (\<forall>c \<in> set (show_nat n). is_digit c)"
proof (induction n rule: show_nat.induct)
  case (1 n)
  show ?case
  proof (cases "n < 10")
    case True
    then show ?thesis
      by (simp add: show_nat.simps [of n] digit_char_is_digit)
  next
    case False
    with "1" show ?thesis
      by (simp add: show_nat.simps [of n] digit_char_is_digit)
  qed
qed

lemma is_digit_not_point: "is_digit c \<Longrightarrow> c \<noteq> CHR ''.''"
  by (auto simp: is_digit_def)

lemma is_digit_not_minus: "is_digit c \<Longrightarrow> c \<noteq> CHR ''-''"
  by (auto simp: is_digit_def)

lemma digit_val_digit_char: "d < 10 \<Longrightarrow> digit_val (digit_char d) = Some d"
  by (erule below_10_cases) (simp_all add: digit_val_def digit_char_def)

lemma parse_digits_append:
  "parse_digits acc (xs @ ys) =
     (case parse_digits acc xs of None \<Rightarrow> None | Some a \<Rightarrow> parse_digits a ys)"
  by (induction xs arbitrary: acc) (simp_all split: option.splits)

lemma parse_digits_show_nat: "parse_digits 0 (show_nat n) = Some n"
proof (induction n rule: show_nat.induct)
  case (1 n)
  show ?case
  proof (cases "n < 10")
    case True
    then show ?thesis
      by (simp add: show_nat.simps [of n] digit_val_digit_char)
  next
    case False
    with "1" show ?thesis
      by (simp add: show_nat.simps [of n] parse_digits_append digit_val_digit_char)
  qed
qed

lemma parse_nat_show_nat: "parse_nat (show_nat n) = Some n"
  using show_nat_digits [of n] by (simp add: parse_nat_def parse_digits_show_nat)

lemma parse_nat_3_digits:
  assumes "a < 10" "b < 10" "c < 10"
  shows "parse_nat [digit_char a, digit_char b, digit_char c] = Some (100 * a + 10 * b + c)"
  using assms by (simp add: parse_nat_def digit_val_digit_char)

lemma parse_unsigned_decimal:
  assumes "a < 10" "b < 10" "c < 10"
  shows "parse_unsigned (show_nat q @ ''.'' @ [digit_char a, digit_char b, digit_char c]) =
     Some (real q + real (100 * a + 10 * b + c) / 1000)"
proof -
  let ?s = "show_nat q @ ''.'' @ [digit_char a, digit_char b, digit_char c]"
  have no_point: "\<forall>x \<in> set (show_nat q). x \<noteq> CHR ''.''"
    using show_nat_digits [of q] is_digit_not_point by blast
  have tw: "takeWhile (\<lambda>c. c \<noteq> CHR ''.'') ?s = show_nat q"
    using no_point by (simp add: takeWhile_append2)
  have dw: "dropWhile (\<lambda>c. c \<noteq> CHR ''.'') ?s = ''.'' @ [digit_char a, digit_char b, digit_char c]"
    using no_point by (simp add: dropWhile_append2)
  show ?thesis
    unfolding parse_unsigned_def tw dw Let_def
    using assms by (simp add: parse_nat_show_nat parse_nat_3_digits)
qed

lemma round_half_even_nonneg: "0 \<le> x \<Longrightarrow> 0 \<le> round_half_even x"
  by (simp add: round_half_even_def Let_def)

lemma digits_mod_1000:
  "100 * (n div 100 mod 10) + 10 * (n div 10 mod 10) + n mod 10 = n mod (1000::nat)"
proof -
  have "n mod (100 * 10) = 100 * (n div 100 mod 10) + n mod 100"
    by (rule mod_mult2_eq)
  moreover have "n mod (10 * 10) = 10 * (n div 10 mod 10) + n mod 10"
    by (rule mod_mult2_eq)
  ultimately show ?thesis
    by simp
qed

lemma parse_float_format_3f: "parse_float (format_3f x) = Some (round_3f x)"
proof -
  define n where "n = nat (round_half_even (\<bar>x\<bar> * 1000))"
  let ?body = "show_nat (n div 1000) @ ''.'' @
      [digit_char (n div 100 mod 10), digit_char (n div 10 mod 10), digit_char (n mod 10)]"
  have fmt: "format_3f x = (if x < 0 then ''-'' else []) @ ?body"
    by (simp add: format_3f_def n_def Let_def)
  have "real (n div 1000) + real (n mod 1000) / 1000 = real n / 1000"
  proof -
    have "real n = real (1000 * (n div 1000) + n mod 1000)"
      by simp
    also have "\<dots> = 1000 * real (n div 1000) + real (n mod 1000)"
      by (simp only: of_nat_add of_nat_mult of_nat_numeral)
    finally have "real n / 1000 = (1000 * real (n div 1000) + real (n mod 1000)) / 1000"
      by simp
    also have "\<dots> = real (n div 1000) + real (n mod 1000) / 1000"
      by (simp add: add_divide_distrib)
    finally show ?thesis
      by simp
  qed
  moreover have "parse_unsigned ?body =
      Some (real (n div 1000)
            + real (100 * (n div 100 mod 10) + 10 * (n div 10 mod 10) + n mod 10) / 1000)"
    by (rule parse_unsigned_decimal) simp_all
  ultimately have body: "parse_unsigned ?body = Some (real n / 1000)"
    by (simp only: digits_mod_1000)
  have n_real: "real n = of_int (round_half_even (\<bar>x\<bar> * 1000))"
    using round_half_even_nonneg [of "\<bar>x\<bar> * 1000"] by (simp add: n_def)
  obtain c cs where first: "show_nat (n div 1000) = c # cs" "is_digit c"
    using show_nat_digits [of "n div 1000"] by (cases "show_nat (n div 1000)") auto
  show ?thesis
  proof (cases "x < 0")
    case True
    then have "parse_float (format_3f x) = map_option uminus (parse_unsigned ?body)"
      by (simp add: fmt parse_float_def)
    with True body n_real show ?thesis
      by (simp add: round_3f_def)
  next
    case False
    have "c \<noteq> CHR ''-''"
      using first(2) by (rule is_digit_not_minus)
    with False first(1) have "parse_float (format_3f x) = parse_unsigned ?body"
      by (simp add: fmt parse_float_def)
    with False body n_real show ?thesis
      by (simp add: round_3f_def)
  qed
qed

lemma round_half_even_near: "\<bar>of_int (round_half_even y) - y\<bar> \<le> 1 / 2"
proof -
  define d where "d = y - of_int \<lfloor>y\<rfloor>"
  have range: "0 \<le> d" "d < 1"
    unfolding d_def by linarith+
  have y: "y = of_int \<lfloor>y\<rfloor> + d"
    by (simp add: d_def)
  consider "d < 1 / 2" | "1 / 2 < d" | "d = 1 / 2"
    by linarith
  then show ?thesis
  proof cases
    case 1
    then have "round_half_even y = \<lfloor>y\<rfloor>"
      by (simp add: round_half_even_def Let_def d_def)
    with 1 range show ?thesis
      unfolding d_def by simp
  next
    case 2
    then have "round_half_even y = \<lfloor>y\<rfloor> + 1"
      by (simp add: round_half_even_def Let_def d_def)
    with 2 range show ?thesis
      unfolding d_def by simp
  next
    case 3
    then have "round_half_even y = \<lfloor>y\<rfloor> \<or> round_half_even y = \<lfloor>y\<rfloor> + 1"
      by (simp add: round_half_even_def Let_def d_def)
    with 3 show ?thesis
      unfolding d_def by auto
  qed
qed

lemma round_3f_near: "\<bar>round_3f x - x\<bar> \<le> 1 / 2000"
proof -
  define r where "r = (of_int (round_half_even (\<bar>x\<bar> * 1000)) :: real)"
  have near: "\<bar>r - \<bar>x\<bar> * 1000\<bar> \<le> 1 / 2"
    unfolding r_def by (rule round_half_even_near)
  show ?thesis
  proof (cases "x < 0")
    case True
    then have "round_3f x = - (r / 1000)" "\<bar>x\<bar> = - x"
      by (simp_all add: round_3f_def r_def)
    with near show ?thesis
      by (simp add: abs_if split: if_splits)
  next
    case False
    then have "round_3f x = r / 1000" "\<bar>x\<bar> = x"
      by (simp_all add: round_3f_def r_def)
    with near show ?thesis
      by (simp add: abs_if split: if_splits)
  qed
qed

section \<open>Properties of the output file\<close>

lemma format_3f_not_header: "format_3f x \<noteq> ''average_time''"
proof
  assume eq: "format_3f x = ''average_time''"
  define n where "n = nat (round_half_even (\<bar>x\<bar> * 1000))"
  have "last (format_3f x) = digit_char (n mod 10)"
    by (simp add: format_3f_def n_def Let_def)
  with eq have "digit_char (n mod 10) = CHR ''e''"
    by simp
  moreover have "is_digit (digit_char (n mod 10))"
    by (simp add: digit_char_is_digit)
  ultimately show False
    by (simp add: is_digit_def)
qed

lemma header_not_in_csv_rows: "[''url'', ''average_time''] \<notin> set (csv_rows results)"
proof -
  have "(''average_time'' = format_3f x) = False" for x
    using format_3f_not_header [of x] by auto
  then show ?thesis
    by (auto simp: csv_rows_def)
qed

lemma foldl_write_csv_Some:
  "foldl write_csv (Some rows) runs = Some (rows @ concat (map csv_rows runs))"
  by (induction runs arbitrary: rows) (simp_all add: write_csv_def)

text \<open>The main program appends the results of sampling the generated URLs.\<close>

lemma main_program_appends:
  assumes "main_program rng net file = Inr file'"
  shows "\<exists>urls pos results pos'. expand_endpoints rng 0 = Inr (urls, pos)
     \<and> sample_all net urls 0 [] = Inr (results, pos') \<and> file' = write_csv file results"
  using assms by (auto simp: main_program_def split: sum.splits prod.splits)


lemma digit_char_not_zero:
  assumes "d < 10" and "0 < d"
  shows "digit_char d \<noteq> CHR ''0''"
proof -
  have "0 < d \<longrightarrow> digit_char d \<noteq> CHR ''0''"
    by (rule below_10_cases [where P = "\<lambda>d. 0 < d \<longrightarrow> digit_char d \<noteq> CHR ''0''", OF assms(1)])
      (simp_all add: digit_char_def)
  with assms(2) show ?thesis
    by simp
qed

lemma hd_show_nat: "0 < n \<Longrightarrow> hd (show_nat n) \<noteq> CHR ''0''"
proof (induction n rule: show_nat.induct)
  case (1 n)
  show ?case
  proof (cases "n < 10")
    case True
    with "1.prems" show ?thesis
      by (simp add: show_nat.simps [of n] digit_char_not_zero)
  next
    case False
    then have "0 < n div 10"
      by simp
    with False "1.IH" have "hd (show_nat (n div 10)) \<noteq> CHR ''0''"
      by simp
    moreover have "show_nat (n div 10) \<noteq> []"
      using show_nat_digits [of "n div 10"] by simp
    ultimately show ?thesis
      using False by (simp add: show_nat.simps [of n])
  qed
qed

lemma show_nat_canonical: "show_nat n = ''0'' \<or> hd (show_nat n) \<noteq> CHR ''0''"
proof (cases "n = 0")
  case True
  then show ?thesis
    by (simp add: show_nat.simps [of 0] digit_char_def)
next
  case False
  then show ?thesis
    by (simp add: hd_show_nat)
qed

lemma format_3f_text:
  "\<exists>ds a b c. format_3f x = (if x < 0 then ''-'' else []) @ ds @ ''.'' @ [a, b, c]
     \<and> ds \<noteq> [] \<and> (\<forall>d \<in> set (ds @ [a, b, c]). is_digit d)
     \<and> (ds = ''0'' \<or> hd ds \<noteq> CHR ''0'')"
proof -
  define n where "n = nat (round_half_even (\<bar>x\<bar> * 1000))"
  have "format_3f x = (if x < 0 then ''-'' else []) @ show_nat (n div 1000) @ ''.'' @
      [digit_char (n div 100 mod 10), digit_char (n div 10 mod 10), digit_char (n mod 10)]"
    by (simp add: format_3f_def n_def Let_def)
  moreover have "show_nat (n div 1000) \<noteq> []"
    "\<forall>d \<in> set (show_nat (n div 1000) @
        [digit_char (n div 100 mod 10), digit_char (n div 10 mod 10), digit_char (n mod 10)]).
      is_digit d"
    using show_nat_digits [of "n div 1000"] by (simp_all add: digit_char_is_digit)
  moreover have "show_nat (n div 1000) = ''0'' \<or> hd (show_nat (n div 1000)) \<noteq> CHR ''0''"
    by (rule show_nat_canonical)
  ultimately show ?thesis
    by blast
qed

lemma csv_rows_nth:
  "i < length results \<Longrightarrow>
     csv_rows results ! i = [url (results ! i), format_3f (average_time (results ! i))]"
  by (simp add: csv_rows_def)

text \<open>
  Claim C8: the header row \<open>url, average_time\<close> is written exactly when there was no
  file; the rows of the run are appended behind what the file held, one row per record
  and in order. The row of a record is its URL and its average time as text: a minus sign
  if the time is negative, then the digits of the whole part without leading zero, a
  point and exactly three digits; this text reads back as the time rounded to three
  decimals, which is within 0.0005 of the time. Over any number of runs that start
  without a file, the file is the header row followed by the rows of the runs in order,
  and no such row is the header row.
\<close>

theorem csv_header_once_rows_appended:
  "write_csv None results = Some ([''url'', ''average_time''] # csv_rows results)
   \<and> write_csv (Some old) results = Some (old @ csv_rows results)
   \<and> length (csv_rows results) = length results
   \<and> (\<forall>i<length results. \<exists>field ds a b c.
         csv_rows results ! i = [url (results ! i), field]
         \<and> field = (if average_time (results ! i) < 0 then ''-'' else []) @ ds @ ''.'' @ [a, b, c]
         \<and> ds \<noteq> [] \<and> (\<forall>d \<in> set (ds @ [a, b, c]). is_digit d)
         \<and> (ds = ''0'' \<or> hd ds \<noteq> CHR ''0'')
         \<and> parse_float field = Some (round_3f (average_time (results ! i)))
         \<and> \<bar>round_3f (average_time (results ! i)) - average_time (results ! i)\<bar> \<le> 1 / 2000)
   \<and> foldl write_csv None (run # runs) =
       Some ([''url'', ''average_time''] # concat (map csv_rows (run # runs)))
   \<and> [''url'', ''average_time''] \<notin> set (concat (map csv_rows (run # runs)))"
proof (intro conjI allI impI)
  show "write_csv None results = Some ([''url'', ''average_time''] # csv_rows results)"
    by (simp add: write_csv_def)
  show "write_csv (Some old) results = Some (old @ csv_rows results)"
    by (simp add: write_csv_def)
  show "length (csv_rows results) = length results"
    by (simp add: csv_rows_def)
  show "foldl write_csv None (run # runs) =
       Some ([''url'', ''average_time''] # concat (map csv_rows (run # runs)))"
    by (simp add: write_csv_def foldl_write_csv_Some)
  show "[''url'', ''average_time''] \<notin> set (concat (map csv_rows (run # runs)))"
    using header_not_in_csv_rows by auto
next
  fix i
  assume i: "i < length results"
  define x where "x = average_time (results ! i)"
  obtain ds a b c where shape: "format_3f x = (if x < 0 then ''-'' else []) @ ds @ ''.'' @ [a, b, c]"
    and digits: "ds \<noteq> []" "\<forall>d \<in> set (ds @ [a, b, c]). is_digit d"
      "ds = ''0'' \<or> hd ds \<noteq> CHR ''0''"
    using format_3f_text [of x] by (elim exE conjE)
  have row: "csv_rows results ! i = [url (results ! i), format_3f x]"
    using i by (simp add: csv_rows_nth x_def)
  have number: "parse_float (format_3f x) = Some (round_3f x)"
    by (rule parse_float_format_3f)
  have near: "\<bar>round_3f x - x\<bar> \<le> 1 / 2000"
    by (rule round_3f_near)
  show "\<exists>field ds a b c.
         csv_rows results ! i = [url (results ! i), field]
         \<and> field = (if average_time (results ! i) < 0 then ''-'' else []) @ ds @ ''.'' @ [a, b, c]
         \<and> ds \<noteq> [] \<and> (\<forall>d \<in> set (ds @ [a, b, c]). is_digit d)
         \<and> (ds = ''0'' \<or> hd ds \<noteq> CHR ''0'')
         \<and> parse_float field = Some (round_3f (average_time (results ! i)))
         \<and> \<bar>round_3f (average_time (results ! i)) - average_time (results ! i)\<bar> \<le> 1 / 2000"
    unfolding x_def [symmetric]
    apply (rule exI [where x = "format_3f x"])
    apply (rule exI [where x = ds])
    apply (rule exI [where x = a])
    apply (rule exI [where x = b])
    apply (rule exI [where x = c])
    apply (intro conjI)
          apply (rule row)
         apply (rule shape)
        apply (rule digits(1))
       apply (rule digits(2))
      apply (rule digits(3))
     apply (rule number)
    apply (rule near)
    done
qed

theorem csv_header_once_rows_appended_witness:
  "write_csv None [\<lparr>url = ''http://localhost:8010/api/apc/search?keywords=500'',
                    average_time = 12345 / 100000\<rparr>,
                   \<lparr>url = ''http://localhost:8010/api/person/A5105622035'',
                    average_time = 123456 / 10000\<rparr>] =
     Some [[''url'', ''average_time''],
           [''http://localhost:8010/api/apc/search?keywords=500'', ''0.123''],
           [''http://localhost:8010/api/person/A5105622035'', ''12.346'']]"
proof -
  let ?r = "\<lparr>url = ''http://localhost:8010/api/apc/search?keywords=500'',
            average_time = 12345 / 100000\<rparr>"
  let ?r' = "\<lparr>url = ''http://localhost:8010/api/person/A5105622035'',
            average_time = 123456 / 10000\<rparr>"
  have "format_3f (12345 / 100000) = ''0.123''" "format_3f (123456 / 10000) = ''12.346''"
    by (simp_all add: format_3f_def round_half_even_def Let_def digit_char_def show_nat.simps)
  then have "csv_rows [?r, ?r'] =
      [[''http://localhost:8010/api/apc/search?keywords=500'', ''0.123''],
       [''http://localhost:8010/api/person/A5105622035'', ''12.346'']]"
    by (simp add: csv_rows_def)
  moreover have "write_csv None [?r, ?r'] =
      Some ([''url'', ''average_time''] # csv_rows [?r, ?r'])"
    using csv_header_once_rows_appended [of "[?r, ?r']"] by (rule conjunct1)
  ultimately show ?thesis
    by (simp only:)
qed

section \<open>Properties of the loader\<close>

lemma str_replace_ne_absent: "\<not> contains old s \<Longrightarrow> str_replace_ne old new s = s"
  by (induction s) simp_all

lemma str_replace_ne_prefix:
  assumes "old \<noteq> []"
  shows "str_replace_ne old new (old @ s) = new @ str_replace_ne old new s"
proof -
  obtain c cs where "old = c # cs"
    using assms by (cases old) auto
  then have "old @ s = c # (cs @ s)" "prefix old (c # (cs @ s))"
    "drop (length old) (c # (cs @ s)) = s"
    by simp_all
  with assms show ?thesis
    by (simp del: Cons_prefix_Cons)
qed

lemma str_replace_api_prefix:
  assumes "\<not> contains ''http://localhost:8010/api/'' rest"
  shows "str_replace ''http://localhost:8010/api/'' [] (''http://localhost:8010/api/'' @ rest)
     = rest"
proof -
  have "str_replace_ne ''http://localhost:8010/api/'' []
      (''http://localhost:8010/api/'' @ rest) =
      [] @ str_replace_ne ''http://localhost:8010/api/'' [] rest"
    by (rule str_replace_ne_prefix) simp
  with assms show ?thesis
    by (simp add: str_replace_def str_replace_ne_absent del: str_replace_ne.simps)
qed

lemma before_first_char: "before_first [c] s = takeWhile (\<lambda>x. x \<noteq> c) s"
  by (induction s) simp_all

lemma clean_row_fields:
  "url (clean_row r) = url r"
  "average_time (clean_row r) = average_time r"
  "response_time_ms (clean_row r) = average_time r * 1000"
  "clean_endpoint (clean_row r) = str_replace ''http://localhost:8010/api/'' [] (url r)"
  "base_endpoint (clean_row r) =
     takeWhile (\<lambda>c. c \<noteq> CHR ''?'') (clean_endpoint (clean_row r))"
  "endpoint_type (clean_row r) = categorize_endpoint (clean_endpoint (clean_row r))"
  by (simp_all add: clean_row_def Let_def extract_base_endpoint_def before_first_char)


lemma api_url_is_text:
  assumes "u = ''http://localhost:8010/api/'' @ rest"
  shows "u \<notin> set NA_VALUES" and "contains ''/'' u"
  using assms by (simp_all add: NA_VALUES_def)

lemma read_rows_csv_rows:
  assumes "\<forall>r \<in> set results. url r \<notin> set NA_VALUES \<and> contains ''/'' (url r)"
  shows "read_rows (csv_rows results) =
     Inr (map (\<lambda>r. (Some (url r), round_3f (average_time r))) results)"
  using assms by (induction results) (simp_all add: csv_rows_def parse_float_format_3f)

lemma url_texts_Some:
  "url_texts (map (\<lambda>r. (Some (url r), round_3f (average_time r))) results) =
     Some (map (\<lambda>r. \<lparr>url = url r, average_time = round_3f (average_time r)\<rparr>) results)"
  by (induction results) simp_all

lemma csv_rows_append: "csv_rows (xs @ ys) = csv_rows xs @ csv_rows ys"
  by (simp add: csv_rows_def)

lemma csv_rows_concat: "concat (map csv_rows runs) = csv_rows (concat runs)"
  by (induction runs) (simp_all add: csv_rows_append, simp add: csv_rows_def)

lemma load_and_clean_data_runs:
  assumes "\<forall>r \<in> set (concat (run # runs)). url r \<notin> set NA_VALUES \<and> contains ''/'' (url r)"
  shows "load_and_clean_data (foldl write_csv None (run # runs)) =
     Inr (map (\<lambda>r. clean_row \<lparr>url = url r, average_time = round_3f (average_time r)\<rparr>)
            (concat (run # runs)))"
proof -
  define rs where "rs = concat (run # runs)"
  have written: "foldl write_csv None (run # runs) = Some ([''url'', ''average_time''] # csv_rows rs)"
    by (simp add: write_csv_def foldl_write_csv_Some csv_rows_concat csv_rows_append rs_def)
  have "read_csv (Some ([''url'', ''average_time''] # csv_rows rs)) = read_rows (csv_rows rs)"
    by (simp add: read_csv_def)
  also have "\<dots> = Inr (map (\<lambda>r. (Some (url r), round_3f (average_time r))) rs)"
    using assms unfolding rs_def [symmetric] by (rule read_rows_csv_rows)
  finally have "load_and_clean_data (Some ([''url'', ''average_time''] # csv_rows rs)) =
      Inr (map (\<lambda>r. clean_row \<lparr>url = url r, average_time = round_3f (average_time r)\<rparr>) rs)"
    by (simp add: load_and_clean_data_def url_texts_Some comp_def)
  then show ?thesis
    unfolding written rs_def .
qed

text \<open>
  A URL field that \<^verbatim>\<open>read_csv\<close> takes for a missing value makes the loader raise.
\<close>

lemma missing_url_raises:
  "load_and_clean_data (write_csv None [\<lparr>url = ''NA'', average_time = 1\<rparr>]) = Inl Raises"
proof -
  have "parse_float (format_3f 1) = Some (round_3f 1)"
    by (rule parse_float_format_3f)
  then show ?thesis
    by (simp add: load_and_clean_data_def read_csv_def write_csv_def csv_rows_def NA_VALUES_def)
qed

text \<open>
  Claim C6, as the specification states it, holds for every record written to the file
  and has the derived columns follow losslessly from the record. Two things stand against
  it. When the output file exists and is empty, the sampler writes no header row, the
  loader takes the first record for the header and raises on the missing column \<open>url\<close>.
  And the file keeps three decimals of the time: a record with the time 0.1234 s comes
  back with \<open>response_time_ms\<close> 123, not 123.4, as does a record with the time 0.1232 s.
\<close>

theorem csv_round_trip_counterexample:
  "load_and_clean_data
     (write_csv (Some []) [\<lparr>url = ''http://localhost:8010/api/apc/search?keywords=500'',
                             average_time = 1234 / 10000\<rparr>]) = Inl Raises
   \<and> (\<exists>row. load_and_clean_data
         (write_csv None [\<lparr>url = ''http://localhost:8010/api/apc/search?keywords=500'',
                            average_time = 1234 / 10000\<rparr>]) = Inr [row]
        \<and> response_time_ms row = 123
        \<and> response_time_ms row \<noteq> (1234 / 10000) * 1000)
   \<and> load_and_clean_data
         (write_csv None [\<lparr>url = ''http://localhost:8010/api/apc/search?keywords=500'',
                            average_time = 1234 / 10000\<rparr>]) =
       load_and_clean_data
         (write_csv None [\<lparr>url = ''http://localhost:8010/api/apc/search?keywords=500'',
                            average_time = 1232 / 10000\<rparr>])"
proof -
  let ?u = "''http://localhost:8010/api/apc/search?keywords=500''"
  let ?r1 = "\<lparr>url = ?u, average_time = 1234 / 10000\<rparr>"
  let ?r2 = "\<lparr>url = ?u, average_time = 1232 / 10000\<rparr>"
  have fmt: "format_3f (1234 / 10000) = ''0.123''"
    by (simp add: format_3f_def round_half_even_def Let_def digit_char_def show_nat.simps)
  have written: "write_csv (Some []) [?r1] = Some [[?u, ''0.123'']]"
    by (simp only: write_csv_def csv_rows_def list.map measurement.simps fmt) simp
  have no_header: "load_and_clean_data (write_csv (Some []) [?r1]) = Inl Raises"
    unfolding written by (simp add: load_and_clean_data_def read_csv_def)
  have stored: "round_3f (1234 / 10000) = 123 / 1000" "round_3f (1232 / 10000) = 123 / 1000"
    by (simp_all add: round_3f_def round_half_even_def Let_def)
  have is_text: "?u \<notin> set NA_VALUES \<and> contains ''/'' ?u"
    by (simp add: NA_VALUES_def)
  have one: "load_and_clean_data (write_csv None [?r1]) =
      Inr [clean_row \<lparr>url = ?u, average_time = 123 / 1000\<rparr>]"
    using load_and_clean_data_runs [of "[?r1]" "[]"] is_text
    by (simp only: foldl.simps concat.simps append.simps list.map list.set ball_simps
        measurement.select_convs stored simp_thms)
  have two: "load_and_clean_data (write_csv None [?r2]) =
      Inr [clean_row \<lparr>url = ?u, average_time = 123 / 1000\<rparr>]"
    using load_and_clean_data_runs [of "[?r2]" "[]"] is_text
    by (simp only: foldl.simps concat.simps append.simps list.map list.set ball_simps
        measurement.select_convs stored simp_thms)
  have ms: "response_time_ms (clean_row \<lparr>url = ?u, average_time = 123 / 1000\<rparr>) = 123"
    by (simp only: clean_row_fields measurement.simps)
  have lossy: "\<exists>row. load_and_clean_data (write_csv None [?r1]) = Inr [row]
        \<and> response_time_ms row = 123
        \<and> response_time_ms row \<noteq> (1234 / 10000) * 1000"
    by (rule exI [where x = "clean_row \<lparr>url = ?u, average_time = 123 / 1000\<rparr>"])
      (simp only: one ms, simp)
  show ?thesis
  proof (intro conjI)
    show "load_and_clean_data (write_csv (Some []) [?r1]) = Inl Raises" by (rule no_header)
    show "\<exists>row. load_and_clean_data (write_csv None [?r1]) = Inr [row]
        \<and> response_time_ms row = 123
        \<and> response_time_ms row \<noteq> (1234 / 10000) * 1000" by (rule lossy)
    show "load_and_clean_data (write_csv None [?r1]) = load_and_clean_data (write_csv None [?r2])"
      by (simp only: one two)
  qed
qed

text \<open>
  Claim C6, amended: when the runs of the sampler start without a file and every URL
  written starts with \<open>http://localhost:8010/api/\<close>, the loader returns one row per
  record, in the order written. The row has the record's URL; its \<open>average_time\<close> is the
  number that the text in the file reads as, the record's time rounded to three decimals
  and so within 0.0005 of it; its \<open>response_time_ms\<close> is 1000 times this
  \<open>average_time\<close>; its \<open>clean_endpoint\<close> is the URL without the occurrences of
  \<open>http://localhost:8010/api/\<close>, which for a URL that holds this text at its start only
  is the rest of the URL; its \<open>base_endpoint\<close> is its \<open>clean_endpoint\<close> up to the first
  question mark.
\<close>

theorem csv_round_trip:
  assumes "\<forall>r \<in> set (concat (run # runs)). \<exists>rest. url r = ''http://localhost:8010/api/'' @ rest"
  shows "\<exists>rows. load_and_clean_data (foldl write_csv None (run # runs)) = Inr rows
     \<and> length rows = length (concat (run # runs))
     \<and> (\<forall>i<length rows.
           url (rows ! i) = url (concat (run # runs) ! i)
         \<and> parse_float (format_3f (average_time (concat (run # runs) ! i))) =
             Some (average_time (rows ! i))
         \<and> average_time (rows ! i) = round_3f (average_time (concat (run # runs) ! i))
         \<and> \<bar>average_time (rows ! i) - average_time (concat (run # runs) ! i)\<bar> \<le> 1 / 2000
         \<and> response_time_ms (rows ! i) = average_time (rows ! i) * 1000
         \<and> clean_endpoint (rows ! i) =
             str_replace ''http://localhost:8010/api/'' [] (url (rows ! i))
         \<and> (\<forall>rest. url (rows ! i) = ''http://localhost:8010/api/'' @ rest
                \<and> \<not> contains ''http://localhost:8010/api/'' rest
              \<longrightarrow> clean_endpoint (rows ! i) = rest)
         \<and> base_endpoint (rows ! i) =
             takeWhile (\<lambda>c. c \<noteq> CHR ''?'') (clean_endpoint (rows ! i)))"
proof -
  define rs where "rs = concat (run # runs)"
  define rows where
    "rows = map (\<lambda>r. clean_row \<lparr>url = url r, average_time = round_3f (average_time r)\<rparr>) rs"
  have text_urls: "\<forall>r \<in> set (concat (run # runs)).
      url r \<notin> set NA_VALUES \<and> contains ''/'' (url r)"
  proof
    fix r
    assume "r \<in> set (concat (run # runs))"
    with assms have "\<exists>rest. url r = ''http://localhost:8010/api/'' @ rest"
      by (rule bspec)
    then obtain rest where eq: "url r = ''http://localhost:8010/api/'' @ rest"
      by (rule exE)
    show "url r \<notin> set NA_VALUES \<and> contains ''/'' (url r)"
      by (rule conjI) (rule api_url_is_text [OF eq])+
  qed
  have loaded: "load_and_clean_data (foldl write_csv None (run # runs)) = Inr rows"
    unfolding rows_def rs_def by (rule load_and_clean_data_runs) (rule text_urls)
  have len: "length rows = length rs"
    by (simp add: rows_def)
  have each: "\<forall>i<length rows.
           url (rows ! i) = url (rs ! i)
         \<and> parse_float (format_3f (average_time (rs ! i))) = Some (average_time (rows ! i))
         \<and> average_time (rows ! i) = round_3f (average_time (rs ! i))
         \<and> \<bar>average_time (rows ! i) - average_time (rs ! i)\<bar> \<le> 1 / 2000
         \<and> response_time_ms (rows ! i) = average_time (rows ! i) * 1000
         \<and> clean_endpoint (rows ! i) =
             str_replace ''http://localhost:8010/api/'' [] (url (rows ! i))
         \<and> (\<forall>rest. url (rows ! i) = ''http://localhost:8010/api/'' @ rest
                \<and> \<not> contains ''http://localhost:8010/api/'' rest
              \<longrightarrow> clean_endpoint (rows ! i) = rest)
         \<and> base_endpoint (rows ! i) =
             takeWhile (\<lambda>c. c \<noteq> CHR ''?'') (clean_endpoint (rows ! i))"
  proof (intro allI impI)
    fix i
    assume "i < length rows"
    then have i: "i < length rs"
      by (simp only: len)
    have row: "rows ! i =
        clean_row \<lparr>url = url (rs ! i), average_time = round_3f (average_time (rs ! i))\<rparr>"
      using i by (simp add: rows_def)
    have a: "url (rows ! i) = url (rs ! i)"
      by (simp only: row clean_row_fields measurement.select_convs)
    have b: "average_time (rows ! i) = round_3f (average_time (rs ! i))"
      by (simp only: row clean_row_fields measurement.select_convs)
    have c: "parse_float (format_3f (average_time (rs ! i))) = Some (average_time (rows ! i))"
      by (simp only: b parse_float_format_3f)
    have d: "\<bar>average_time (rows ! i) - average_time (rs ! i)\<bar> \<le> 1 / 2000"
      unfolding b by (rule round_3f_near)
    have e: "response_time_ms (rows ! i) = average_time (rows ! i) * 1000"
      by (simp only: row clean_row_fields)
    have f: "clean_endpoint (rows ! i) =
        str_replace ''http://localhost:8010/api/'' [] (url (rows ! i))"
      by (simp only: row clean_row_fields)
    have g: "\<forall>rest. url (rows ! i) = ''http://localhost:8010/api/'' @ rest
                \<and> \<not> contains ''http://localhost:8010/api/'' rest
              \<longrightarrow> clean_endpoint (rows ! i) = rest"
    proof (intro allI impI)
      fix rest
      assume h: "url (rows ! i) = ''http://localhost:8010/api/'' @ rest
                \<and> \<not> contains ''http://localhost:8010/api/'' rest"
      from h have h1: "url (rows ! i) = ''http://localhost:8010/api/'' @ rest"
        by (rule conjunct1)
      from h have h2: "\<not> contains ''http://localhost:8010/api/'' rest"
        by (rule conjunct2)
      show "clean_endpoint (rows ! i) = rest"
        unfolding f h1 using h2 by (rule str_replace_api_prefix)
    qed
    have k: "base_endpoint (rows ! i) =
        takeWhile (\<lambda>c. c \<noteq> CHR ''?'') (clean_endpoint (rows ! i))"
      by (simp only: row clean_row_fields)
    show "url (rows ! i) = url (rs ! i)
         \<and> parse_float (format_3f (average_time (rs ! i))) = Some (average_time (rows ! i))
         \<and> average_time (rows ! i) = round_3f (average_time (rs ! i))
         \<and> \<bar>average_time (rows ! i) - average_time (rs ! i)\<bar> \<le> 1 / 2000
         \<and> response_time_ms (rows ! i) = average_time (rows ! i) * 1000
         \<and> clean_endpoint (rows ! i) =
             str_replace ''http://localhost:8010/api/'' [] (url (rows ! i))
         \<and> (\<forall>rest. url (rows ! i) = ''http://localhost:8010/api/'' @ rest
                \<and> \<not> contains ''http://localhost:8010/api/'' rest
              \<longrightarrow> clean_endpoint (rows ! i) = rest)
         \<and> base_endpoint (rows ! i) =
             takeWhile (\<lambda>c. c \<noteq> CHR ''?'') (clean_endpoint (rows ! i))"
      by (intro conjI; fact)
  qed
  show ?thesis
    unfolding rs_def [symmetric]
    by (rule exI [where x = rows]) (intro conjI loaded len each)
qed

theorem csv_round_trip_witness:
  "\<exists>rows. load_and_clean_data
       (foldl write_csv None
         [[\<lparr>url = ''http://localhost:8010/api/apc/search?keywords=500'',
             average_time = 12345 / 100000\<rparr>],
          [\<lparr>url = ''http://localhost:8010/api/person/A5105622035'',
             average_time = 123456 / 10000\<rparr>]]) = Inr rows
     \<and> length rows = 2
     \<and> url (rows ! 0) = ''http://localhost:8010/api/apc/search?keywords=500''
     \<and> average_time (rows ! 0) = 123 / 1000
     \<and> response_time_ms (rows ! 0) = 123
     \<and> clean_endpoint (rows ! 0) = ''apc/search?keywords=500''
     \<and> base_endpoint (rows ! 0) = ''apc/search''
     \<and> url (rows ! 1) = ''http://localhost:8010/api/person/A5105622035''
     \<and> average_time (rows ! 1) = 12346 / 1000
     \<and> response_time_ms (rows ! 1) = 12346
     \<and> clean_endpoint (rows ! 1) = ''person/A5105622035''
     \<and> base_endpoint (rows ! 1) = ''person/A5105622035''"
proof -
  let ?r1 = "\<lparr>url = ''http://localhost:8010/api/apc/search?keywords=500'',
              average_time = 12345 / 100000\<rparr>"
  let ?r2 = "\<lparr>url = ''http://localhost:8010/api/person/A5105622035'',
              average_time = 123456 / 10000\<rparr>"
  have urls: "\<forall>r \<in> set (concat ([?r1] # [[?r2]])).
      \<exists>rest. url r = ''http://localhost:8010/api/'' @ rest"
    by simp
  have stored: "round_3f (12345 / 100000) = 123 / 1000" "round_3f (123456 / 10000) = 12346 / 1000"
    by (simp_all add: round_3f_def round_half_even_def Let_def)
  have once: "\<not> contains ''http://localhost:8010/api/'' ''apc/search?keywords=500''"
    "\<not> contains ''http://localhost:8010/api/'' ''person/A5105622035''"
    by simp_all
  from csv_round_trip [OF urls] obtain rows where
    loaded: "load_and_clean_data (foldl write_csv None ([?r1] # [[?r2]])) = Inr rows" and
    len: "length rows = length (concat ([?r1] # [[?r2]]))" and
    each: "\<forall>i<length rows.
           url (rows ! i) = url (concat ([?r1] # [[?r2]]) ! i)
         \<and> parse_float (format_3f (average_time (concat ([?r1] # [[?r2]]) ! i))) =
             Some (average_time (rows ! i))
         \<and> average_time (rows ! i) = round_3f (average_time (concat ([?r1] # [[?r2]]) ! i))
         \<and> \<bar>average_time (rows ! i) - average_time (concat ([?r1] # [[?r2]]) ! i)\<bar> \<le> 1 / 2000
         \<and> response_time_ms (rows ! i) = average_time (rows ! i) * 1000
         \<and> clean_endpoint (rows ! i) =
             str_replace ''http://localhost:8010/api/'' [] (url (rows ! i))
         \<and> (\<forall>rest. url (rows ! i) = ''http://localhost:8010/api/'' @ rest
                \<and> \<not> contains ''http://localhost:8010/api/'' rest
              \<longrightarrow> clean_endpoint (rows ! i) = rest)
         \<and> base_endpoint (rows ! i) =
             takeWhile (\<lambda>c. c \<noteq> CHR ''?'') (clean_endpoint (rows ! i))"
    by (elim exE conjE)
  have len2: "length rows = 2"
    using len by simp
  have in0: "0 < length rows" and in1: "1 < length rows"
    using len2 by simp_all
  note e0 = each [rule_format, OF in0]
  note e1 = each [rule_format, OF in1]
  have u0: "url (rows ! 0) = ''http://localhost:8010/api/'' @ ''apc/search?keywords=500''"
    using e0 by simp
  have u1: "url (rows ! 1) = ''http://localhost:8010/api/'' @ ''person/A5105622035''"
    using e1 by simp
  have t0: "average_time (rows ! 0) = 123 / 1000"
    using e0 stored by simp
  have t1: "average_time (rows ! 1) = 12346 / 1000"
    using e1 stored by simp
  have ms: "response_time_ms (rows ! 0) = average_time (rows ! 0) * 1000"
    "response_time_ms (rows ! 1) = average_time (rows ! 1) * 1000"
    using e0 e1 by simp_all
  note tl0 = e0 [THEN conjunct2, THEN conjunct2, THEN conjunct2, THEN conjunct2, THEN conjunct2,
    THEN conjunct2]
  note tl1 = e1 [THEN conjunct2, THEN conjunct2, THEN conjunct2, THEN conjunct2, THEN conjunct2,
    THEN conjunct2]
  have c0: "clean_endpoint (rows ! 0) = ''apc/search?keywords=500''"
    by (rule tl0 [THEN conjunct1, rule_format]) (rule conjI [OF u0 once(1)])
  have c1: "clean_endpoint (rows ! 1) = ''person/A5105622035''"
    by (rule tl1 [THEN conjunct1, rule_format]) (rule conjI [OF u1 once(2)])
  note base = tl0 [THEN conjunct2] tl1 [THEN conjunct2]
  have b0: "base_endpoint (rows ! 0) = ''apc/search''"
    unfolding base c0 by simp
  have b1: "base_endpoint (rows ! 1) = ''person/A5105622035''"
    unfolding base c1 by simp
  have loaded': "load_and_clean_data (foldl write_csv None [[?r1], [?r2]]) = Inr rows"
    by (rule loaded)
  have m0: "response_time_ms (rows ! 0) = 123"
    unfolding ms t0 by simp
  have m1: "response_time_ms (rows ! 1) = 12346"
    unfolding ms t1 by simp
  have u0': "url (rows ! 0) = ''http://localhost:8010/api/apc/search?keywords=500''"
    unfolding u0 by simp
  have u1': "url (rows ! 1) = ''http://localhost:8010/api/person/A5105622035''"
    unfolding u1 by simp
  show ?thesis
    by (rule exI [where x = rows]) (intro conjI loaded' len2 u0' t0 m0 c0 b0 u1' t1 m1 c1 b1)
qed

text \<open>
  Every URL the generator returns starts with \<open>http://localhost:8010/api/\<close> and holds
  this text nowhere else, so the loader strips exactly this prefix from it.
\<close>

lemma generated_urls_api_prefix:
  assumes "expand_endpoints rng pos = Inr (urls, pos')" and "u \<in> set urls"
  shows "prefix ''http://localhost:8010/api/'' u
     \<and> \<not> contains ''http://localhost:8010/api/'' (drop (length ''http://localhost:8010/api/'') u)"
proof -
  let ?ok = "\<lambda>u. prefix ''http://localhost:8010/api/'' u
     \<and> \<not> contains ''http://localhost:8010/api/'' (drop (length ''http://localhost:8010/api/'') u)"
  have k1: "?ok (''http://localhost:8010/api/apc/search?keywords='' @
             [''500'', ''1000'', ''1500'', ''2000''] ! (rng pos mod 4))"
    by (rule nth_mod_4_cases
        [where P = "\<lambda>k. ?ok (''http://localhost:8010/api/apc/search?keywords='' @ k)"])
      simp_all
  have k2: "?ok (''http://localhost:8010/api/search/person?keywords='' @
             [''esteban'', ''alejandra'', ''jaime'', ''garcia''] ! (rng (Suc pos) mod 4))"
    by (rule nth_mod_4_cases
        [where P = "\<lambda>k. ?ok (''http://localhost:8010/api/search/person?keywords='' @ k)"])
      simp_all
  have k3: "?ok (''http://localhost:8010/api/search/works?keywords='' @
             [''ciencia'', ''data'', ''ai'', ''salud''] ! (rng (Suc (Suc pos)) mod 4))"
    by (rule nth_mod_4_cases
        [where P = "\<lambda>k. ?ok (''http://localhost:8010/api/search/works?keywords='' @ k)"])
      simp_all
  have "\<forall>u \<in> set urls. ?ok u"
    using assms(1) k1 k2 k3 unfolding expand_endpoints_eq by auto
  from this assms(2) show ?thesis
    by (rule bspec)
qed

end
